theory Spec2Isabelle
  imports Main
begin

section \<open>Organizer mail views of pretalx (src/pretalx/orga/views/mails.py)\<close>

text \<open>
  The views are thin request handlers over a relational data store. Each handler is
  embedded as a function from a request and a store to an outcome: the HTTP response,
  the flash messages added to the request, and the store after the handler has run.
  Strings are ASCII text; a primary key identifies a row, as Django's model equality does.
\<close>

subsection \<open>Data model\<close>

type_synonym pk = nat
type_synonym timestamp = nat

text \<open>pretalx.person.models.User: the views read the primary key and the email.\<close>

record user =
  user_pk :: pk
  user_email :: string

text \<open>
  Submission, as far as the compose view queries it: event, code, track, submission
  type, state, attached resources, and the users related through \<open>User.submissions\<close>.
\<close>

record submission =
  sub_event :: pk
  sub_code :: string
  sub_track_id :: "pk option"
  sub_submission_type_id :: pk
  sub_state :: string
  sub_resources :: "pk list"
  sub_speakers :: "pk list"

text \<open>A team, listed under the event whose \<open>event.teams\<close> returns it.\<close>

record team =
  team_event :: pk
  team_is_reviewer :: bool
  team_members :: "pk list"

text \<open>The event of the request: its primary key and its outgoing address, \<open>event.email\<close>.\<close>

record event =
  event_pk :: pk
  event_email :: string

text \<open>QueuedMail: \<open>mail_sent\<close> is the nullable timestamp of delivery.\<close>

record queued_mail =
  mail_pk :: pk
  mail_event :: pk
  mail_to :: "string option"
  mail_to_users :: "pk list"
  mail_reply_to :: "string option"
  mail_cc :: "string option"
  mail_bcc :: "string option"
  mail_subject :: "string option"
  mail_text :: "string option"
  mail_sent :: "timestamp option"

record mail_template =
  tpl_pk :: pk
  tpl_event :: pk
  tpl_subject :: string
  tpl_text :: string
  tpl_reply_to :: "string option"
  tpl_bcc :: "string option"

text \<open>
  The object a collaborator call is made on: a queued mail or a mail template, by
  primary key (\<open>None\<close> for an instance that has not been saved yet).
\<close>

datatype obj_ref = MailRef "pk option" | TemplateRef "pk option"

text \<open>
  Calls made on the external collaborators, in the order the handler makes them:
  \<open>obj.log_action(action, person=..., orga=...)\<close>, \<open>mail.send(requestor=...)\<close>,
  \<open>obj.delete()\<close> and \<open>queryset.delete()\<close>.
\<close>

datatype effect =
    LogAction string obj_ref pk bool
  | SendCall pk "pk option"
  | DeleteCall obj_ref
  | QsDelete "pk list"

text \<open>
  The data store. Each table lists its rows in primary-key order, the order in which
  \<open>.first()\<close> reads an unordered queryset. \<open>next_pk\<close> is the key the next created
  row receives.
\<close>

record store =
  users :: "user list"
  submissions :: "submission list"
  teams :: "team list"
  queued_mails :: "queued_mail list"
  mail_templates :: "mail_template list"
  next_pk :: pk
  trace :: "effect list"

subsection \<open>Requests, responses, messages\<close>

text \<open>
  The request methods the views tell apart. Other verbs are not modelled: the list and
  template views answer them with 405, and the handlers that override \<open>dispatch\<close> treat
  them like these two.
\<close>

datatype http_method = GET | POST

text \<open>The query string, \<open>request.GET\<close>: the three keys the compose view reads.\<close>

record query =
  q_template :: "pk option"
  q_submission :: "string option"
  q_email :: "string option"

text \<open>
  A request: method, the event and user the framework resolved, the \<open>pk\<close> URL
  argument (\<open>None\<close> when \<open>'pk'\<close> is not in \<open>self.kwargs\<close>), the query string, and
  the clock reading a send stamps.
\<close>

record request =
  req_method :: http_method
  req_event :: event
  req_user :: pk
  req_pk :: "pk option"
  req_GET :: query
  req_now :: timestamp

text \<open>\<open>event.orga_urls.*\<close> and \<open>mail.urls.edit\<close>.\<close>

datatype url = Outbox pk | ComposeMails pk | MailTemplates pk | MailEdit pk

datatype response = Render string | Redirect url | Http404 | Http405

datatype level = Success | Error

text \<open>
  A flash message: \<open>messages.success\<close> or \<open>messages.error\<close>, the message text, and
  the \<open>count\<close> argument of \<open>.format\<close> where the text has one.
\<close>

record message =
  msg_level :: level
  msg_text :: string
  msg_count :: "nat option"

definition success :: "string \<Rightarrow> message" where
  "success t = \<lparr>msg_level = Success, msg_text = t, msg_count = None\<rparr>"

definition success_count :: "string \<Rightarrow> nat \<Rightarrow> message" where
  "success_count t n = \<lparr>msg_level = Success, msg_text = t, msg_count = Some n\<rparr>"

definition error :: "string \<Rightarrow> message" where
  "error t = \<lparr>msg_level = Error, msg_text = t, msg_count = None\<rparr>"

record outcome =
  out_response :: response
  out_messages :: "message list"
  out_store :: store

subsection \<open>Collaborator operations\<close>

text \<open>\<open>obj.log_action(action, person=user, orga=True)\<close>: one audit-log call.\<close>

definition log_action :: "string \<Rightarrow> obj_ref \<Rightarrow> pk \<Rightarrow> bool \<Rightarrow> store \<Rightarrow> store" where
  "log_action action obj person orga s = s\<lparr>trace := trace s @ [LogAction action obj person orga]\<rparr>"

text \<open>
  Modelled from the spec: \<open>QueuedMail.send\<close> (pretalx.mail.models), which
  "delivers (or re-enqueues for delivery) and stamps sent": the row of the mail gets
  the clock reading, and the call is recorded with its requestor.
\<close>

definition send :: "timestamp \<Rightarrow> pk option \<Rightarrow> queued_mail \<Rightarrow> store \<Rightarrow> store" where
  "send now requestor m s =
     s\<lparr>queued_mails :=
         map (\<lambda>x. if mail_pk x = mail_pk m then x\<lparr>mail_sent := Some now\<rparr> else x) (queued_mails s),
       trace := trace s @ [SendCall (mail_pk m) requestor]\<rparr>"

text \<open>
  Modelled from the spec: \<open>QueuedMail.copy_to_draft\<close> (pretalx.mail.models), which
  "returns a new unsent duplicate": a new row with the fields of the source and
  \<open>sent\<close> null.
\<close>

definition copy_to_draft :: "queued_mail \<Rightarrow> store \<Rightarrow> queued_mail \<times> store" where
  "copy_to_draft m s =
     (let new_mail = m\<lparr>mail_pk := next_pk s, mail_sent := None\<rparr>
      in (new_mail, s\<lparr>queued_mails := queued_mails s @ [new_mail], next_pk := Suc (next_pk s)\<rparr>))"

text \<open>\<open>mail.delete()\<close>: the row leaves the table.\<close>

definition delete_mail :: "queued_mail \<Rightarrow> store \<Rightarrow> store" where
  "delete_mail m s =
     s\<lparr>queued_mails := filter (\<lambda>x. mail_pk x \<noteq> mail_pk m) (queued_mails s),
       trace := trace s @ [DeleteCall (MailRef (Some (mail_pk m)))]\<rparr>"

text \<open>\<open>template.delete()\<close>.\<close>

definition delete_template :: "mail_template \<Rightarrow> store \<Rightarrow> store" where
  "delete_template t s =
     s\<lparr>mail_templates := filter (\<lambda>x. tpl_pk x \<noteq> tpl_pk t) (mail_templates s),
       trace := trace s @ [DeleteCall (TemplateRef (Some (tpl_pk t)))]\<rparr>"

text \<open>
  \<open>QueuedMail.objects.create(...)\<close>: a new row with the next primary key; the
  fields the call does not pass keep their defaults (\<open>to\<close> null, no \<open>to_users\<close>,
  \<open>sent\<close> null).
\<close>

definition create_mail :: "queued_mail \<Rightarrow> store \<Rightarrow> queued_mail \<times> store" where
  "create_mail m s =
     (let mail = m\<lparr>mail_pk := next_pk s\<rparr>
      in (mail, s\<lparr>queued_mails := queued_mails s @ [mail], next_pk := Suc (next_pk s)\<rparr>))"

text \<open>\<open>event.queued_mails\<close>: the mails of the event.\<close>

definition event_queued_mails :: "event \<Rightarrow> store \<Rightarrow> queued_mail list" where
  "event_queued_mails ev s = filter (\<lambda>m. mail_event m = event_pk ev) (queued_mails s)"

subsection \<open>ComposeMail\<close>

text \<open>
  WriteMailForm (pretalx.orga.forms.mails) validates the POST data; the view reads
  \<open>form.cleaned_data\<close>. \<open>cd_reply_to = None\<close> stands for a \<open>cleaned_data\<close> without the
  key \<open>'reply_to'\<close>; for the keys read with \<open>.get(key)\<close>, \<open>None\<close> is Python's None.
\<close>

record write_mail_form =
  wmf_is_valid :: bool
  cd_submissions :: "string list"
  cd_tracks :: "pk list"
  cd_submission_types :: "pk list"
  cd_recipients :: "string list"
  cd_additional_recipients :: string
  cd_reply_to :: "string option"
  cd_cc :: "string option"
  cd_bcc :: "string option"
  cd_subject :: "string option"
  cd_text :: "string option"

text \<open>\<open>str.split(',')\<close>: the pieces between commas, empty pieces included.\<close>

fun split_comma :: "string \<Rightarrow> string list" where
  "split_comma [] = [[]]"
| "split_comma (c # cs) =
     (if c = CHR '','' then [] # split_comma cs
      else (case split_comma cs of [] \<Rightarrow> [[c]] | w # ws \<Rightarrow> (c # w) # ws))"

text \<open>\<open>str.isspace\<close> on an ASCII character: tab to carriage return, FS to US, space.\<close>

definition isspace :: "char \<Rightarrow> bool" where
  "isspace c = (let n = (of_char c :: nat) in (9 \<le> n \<and> n \<le> 13) \<or> (28 \<le> n \<and> n \<le> 32))"

definition strip :: "string \<Rightarrow> string" where
  "strip m = rev (dropWhile isspace (rev (dropWhile isspace m)))"

definition lower_char :: "char \<Rightarrow> char" where
  "lower_char c = (let n = (of_char c :: nat) in if 65 \<le> n \<and> n \<le> 90 then char_of (n + 32) else c)"

definition lower :: "string \<Rightarrow> string" where
  "lower m = map lower_char m"

text \<open>
  \<open>[m.strip().lower() for m in ....split(',') if m.strip()]\<close>
\<close>

definition additional_mails :: "write_mail_form \<Rightarrow> string list" where
  "additional_mails form =
     map (\<lambda>m. lower (strip m))
       (filter (\<lambda>m. strip m \<noteq> []) (split_comma (cd_additional_recipients form)))"

text \<open>\<open>email__iexact\<close>: equality up to the case of letters.\<close>

definition iexact :: "string \<Rightarrow> string \<Rightarrow> bool" where
  "iexact a b = (lower a = lower b)"

text \<open>\<open>User.objects.filter(email__iexact=email).first()\<close>\<close>

definition user_by_email :: "store \<Rightarrow> string \<Rightarrow> user option" where
  "user_by_email s email = find (\<lambda>u. iexact (user_email u) email) (users s)"

text \<open>\<open>self.request.event.submissions\<close>\<close>

definition event_submissions :: "event \<Rightarrow> store \<Rightarrow> submission list" where
  "event_submissions ev s = filter (\<lambda>x. sub_event x = event_pk ev) (submissions s)"

text \<open>
  \<open>User.objects.filter(submissions__in=subs)\<close>: the join gives a user once for each
  of the submissions it is related to.
\<close>

definition users_submissions_in :: "store \<Rightarrow> submission list \<Rightarrow> pk list" where
  "users_submissions_in s subs =
     concat (map (\<lambda>sub. filter (\<lambda>u. u \<in> set (sub_speakers sub)) (map user_pk (users s))) subs)"

text \<open>\<open>User.objects.filter(teams__in=event.teams.filter(is_reviewer=True)).distinct()\<close>\<close>

definition users_reviewers :: "store \<Rightarrow> event \<Rightarrow> pk list" where
  "users_reviewers s ev =
     remdups (concat (map (\<lambda>t. filter (\<lambda>u. u \<in> set (team_members t)) (map user_pk (users s)))
       (filter (\<lambda>t. team_event t = event_pk ev \<and> team_is_reviewer t) (teams s))))"

text \<open>
  \<open>user_set\<close> is a Python set of users: a list without repetition, in the order of
  insertion. \<open>user_set.update(users)\<close> is \<open>List.union users user_set\<close>, and
  \<open>user_set.add(user)\<close> is \<open>List.insert user user_set\<close>.
\<close>

text \<open>The three criteria blocks: each one is skipped when its list is empty.\<close>

definition users_by_criteria :: "store \<Rightarrow> event \<Rightarrow> write_mail_form \<Rightarrow> pk list" where
  "users_by_criteria s ev form =
     (let user_set = [];
          user_set =
            (if cd_submissions form \<noteq> []
             then List.union (users_submissions_in s
                    (filter (\<lambda>x. sub_code x \<in> set (cd_submissions form)) (event_submissions ev s))) user_set
             else user_set);
          user_set =
            (if cd_tracks form \<noteq> []
             then List.union (users_submissions_in s
                    (filter (\<lambda>x. case sub_track_id x of None \<Rightarrow> False | Some t \<Rightarrow> t \<in> set (cd_tracks form))
                       (event_submissions ev s))) user_set
             else user_set);
          user_set =
            (if cd_submission_types form \<noteq> []
             then List.union (users_submissions_in s
                    (filter (\<lambda>x. sub_submission_type_id x \<in> set (cd_submission_types form))
                       (event_submissions ev s))) user_set
             else user_set)
      in user_set)"

text \<open>One recipient category: \<open>'reviewers'\<close>, \<open>'no_slides'\<close>, or a submission state.\<close>

definition users_for_recipient :: "store \<Rightarrow> event \<Rightarrow> string \<Rightarrow> pk list" where
  "users_for_recipient s ev recipient =
     (if recipient = ''reviewers'' then users_reviewers s ev
      else if recipient = ''no_slides''
        then users_submissions_in s
               (filter (\<lambda>x. sub_resources x = [] \<and> sub_state x = ''confirmed'') (event_submissions ev s))
      else users_submissions_in s
             (filter (\<lambda>x. sub_state x = recipient) (event_submissions ev s)))"

text \<open>\<open>for recipient in form.cleaned_data.get('recipients'): ... user_set.update(users)\<close>\<close>

fun recipients_loop :: "store \<Rightarrow> event \<Rightarrow> string list \<Rightarrow> pk list \<Rightarrow> pk list" where
  "recipients_loop s ev [] user_set = user_set"
| "recipients_loop s ev (recipient # rest) user_set =
     recipients_loop s ev rest (List.union (users_for_recipient s ev recipient) user_set)"

text \<open>
  \<open>form.cleaned_data.get('reply_to', self.request.event.email)\<close>: the default is
  taken when the key is absent.
\<close>

definition form_reply_to :: "event \<Rightarrow> write_mail_form \<Rightarrow> string" where
  "form_reply_to ev form = (case cd_reply_to form of None \<Rightarrow> event_email ev | Some r \<Rightarrow> r)"

text \<open>The keyword arguments both \<open>QueuedMail.objects.create\<close> calls share.\<close>

definition compose_mail :: "event \<Rightarrow> write_mail_form \<Rightarrow> queued_mail" where
  "compose_mail ev form =
     \<lparr>mail_pk = 0, mail_event = event_pk ev, mail_to = None, mail_to_users = [],
      mail_reply_to = Some (form_reply_to ev form), mail_cc = cd_cc form, mail_bcc = cd_bcc form,
      mail_subject = cd_subject form, mail_text = cd_text form, mail_sent = None\<rparr>"

text \<open>
  \<open>for email in additional_mails\<close>: an address of a user adds the user to the set,
  any other address gets its mail at once.
\<close>

fun additional_loop ::
  "event \<Rightarrow> write_mail_form \<Rightarrow> string list \<Rightarrow> pk list \<Rightarrow> store \<Rightarrow> pk list \<times> store" where
  "additional_loop ev form [] user_set s = (user_set, s)"
| "additional_loop ev form (email # rest) user_set s =
     (case user_by_email s email of
        Some u \<Rightarrow> additional_loop ev form rest (List.insert (user_pk u) user_set) s
      | None \<Rightarrow>
          additional_loop ev form rest user_set
            (snd (create_mail ((compose_mail ev form)\<lparr>mail_to := Some email\<rparr>) s)))"

text \<open>
  \<open>for user in user_set\<close>: one mail for each user, and \<open>mail.to_users.add(user)\<close> on
  the row just created. A Python set has no order of its own; the loop is written
  here in the order of the list.
\<close>

fun user_loop :: "event \<Rightarrow> write_mail_form \<Rightarrow> pk list \<Rightarrow> store \<Rightarrow> store" where
  "user_loop ev form [] s = s"
| "user_loop ev form (u # rest) s =
     user_loop ev form rest (snd (create_mail ((compose_mail ev form)\<lparr>mail_to_users := [u]\<rparr>) s))"

text \<open>The text of the success message; its dash is an en dash in the source.\<close>

definition msg_saved_to_outbox :: string where
  "msg_saved_to_outbox =
     ''{count} emails have been saved to the outbox - you can make individual changes there or just send them all.''"

text \<open>The user set when the last loop starts.\<close>

definition final_user_set :: "request \<Rightarrow> write_mail_form \<Rightarrow> store \<Rightarrow> pk list" where
  "final_user_set r form s =
     fst (additional_loop (req_event r) form (additional_mails form)
            (recipients_loop s (req_event r) (cd_recipients form)
               (users_by_criteria s (req_event r) form)) s)"

definition ComposeMail_form_valid :: "request \<Rightarrow> write_mail_form \<Rightarrow> store \<Rightarrow> outcome" where
  "ComposeMail_form_valid r form s =
     (let ev = req_event r;
          user_set = users_by_criteria s ev form;
          user_set = recipients_loop s ev (cd_recipients form) user_set;
          additional = additional_mails form;
          (user_set, s1) = additional_loop ev form additional user_set s;
          s2 = user_loop ev form user_set s1
      in \<lparr>out_response = Redirect (ComposeMails (event_pk ev)),
          out_messages = [success_count msg_saved_to_outbox (length user_set + length additional)],
          out_store = s2\<rparr>)"

text \<open>
  \<open>get_form_kwargs\<close>: the initial values of the form, a dict from field name to value
  (\<open>Some None\<close> is a key whose value is Python's None).
\<close>

definition ComposeMail_get_form_kwargs :: "request \<Rightarrow> store \<Rightarrow> (string \<rightharpoonup> string option)" where
  "ComposeMail_get_form_kwargs r s =
     (let initial = Map.empty;
          initial =
            (case q_template (req_GET r) of
               None \<Rightarrow> initial
             | Some tid \<Rightarrow>
                 (case find (\<lambda>t. tpl_pk t = tid) (mail_templates s) of
                    None \<Rightarrow> initial
                  | Some template \<Rightarrow>
                      initial(''subject'' \<mapsto> Some (tpl_subject template),
                              ''text'' \<mapsto> Some (tpl_text template),
                              ''reply_to'' \<mapsto> tpl_reply_to template,
                              ''bcc'' \<mapsto> tpl_bcc template)));
          initial =
            (case q_submission (req_GET r) of
               None \<Rightarrow> initial
             | Some c \<Rightarrow>
                 (case find (\<lambda>x. sub_code x = c) (event_submissions (req_event r) s) of
                    None \<Rightarrow> initial
                  | Some submission \<Rightarrow> initial(''submissions'' \<mapsto> Some (sub_code submission))));
          initial =
            (case q_email (req_GET r) of
               None \<Rightarrow> initial
             | Some e \<Rightarrow> initial(''additional_recipients'' \<mapsto> Some e))
      in initial)"

text \<open>FormView: GET renders the form, POST validates it.\<close>

definition ComposeMail_dispatch :: "request \<Rightarrow> write_mail_form \<Rightarrow> store \<Rightarrow> outcome" where
  "ComposeMail_dispatch r form s =
     (case req_method r of
        GET \<Rightarrow> \<lparr>out_response = Render ''orga/mails/send_form.html'', out_messages = [], out_store = s\<rparr>
      | POST \<Rightarrow>
          (if wmf_is_valid form then ComposeMail_form_valid r form s
           else \<lparr>out_response = Render ''orga/mails/send_form.html'', out_messages = [], out_store = s\<rparr>))"

subsection \<open>OutboxList, SentMail, TemplateList\<close>

text \<open>
  The two list views and the template list only read the store: a GET renders the
  template, and the classes define no \<open>post\<close>.
\<close>

definition OutboxList_dispatch :: "request \<Rightarrow> store \<Rightarrow> outcome" where
  "OutboxList_dispatch r s =
     (case req_method r of
        GET \<Rightarrow> \<lparr>out_response = Render ''orga/mails/outbox_list.html'', out_messages = [], out_store = s\<rparr>
      | POST \<Rightarrow> \<lparr>out_response = Http405, out_messages = [], out_store = s\<rparr>)"

definition SentMail_dispatch :: "request \<Rightarrow> store \<Rightarrow> outcome" where
  "SentMail_dispatch r s =
     (case req_method r of
        GET \<Rightarrow> \<lparr>out_response = Render ''orga/mails/sent_list.html'', out_messages = [], out_store = s\<rparr>
      | POST \<Rightarrow> \<lparr>out_response = Http405, out_messages = [], out_store = s\<rparr>)"

definition TemplateList_dispatch :: "request \<Rightarrow> store \<Rightarrow> outcome" where
  "TemplateList_dispatch r s =
     (case req_method r of
        GET \<Rightarrow> \<lparr>out_response = Render ''orga/mails/template_list.html'', out_messages = [], out_store = s\<rparr>
      | POST \<Rightarrow> \<lparr>out_response = Http405, out_messages = [], out_store = s\<rparr>)"

subsection \<open>OutboxSend\<close>

definition msg_not_exist_or_sent :: string where
  "msg_not_exist_or_sent =
     ''This mail either does not exist or cannot be discarded because it was sent already.''"

definition msg_had_been_sent :: string where
  "msg_had_been_sent = ''This mail had been sent already.''"

text \<open>The cached property \<open>queryset\<close>, shared in shape by OutboxSend and OutboxPurge.\<close>

definition OutboxSend_queryset :: "request \<Rightarrow> store \<Rightarrow> queued_mail list" where
  "OutboxSend_queryset r s =
     (let qs = filter (\<lambda>m. mail_sent m = None) (event_queued_mails (req_event r) s)
      in case req_pk r of Some k \<Rightarrow> filter (\<lambda>m. mail_pk m = k) qs | None \<Rightarrow> qs)"

definition OutboxSend_post :: "request \<Rightarrow> store \<Rightarrow> outcome" where
  "OutboxSend_post r s =
     (let qs = OutboxSend_queryset r s;
          count = length qs;
          s1 = fold (send (req_now r) (Some (req_user r))) qs s
      in \<lparr>out_response = Redirect (Outbox (event_pk (req_event r))),
          out_messages = [success_count ''{count} mails have been sent.'' count],
          out_store = s1\<rparr>)"

text \<open>
  \<open>dispatch\<close> runs for every request method. With a \<open>pk\<close> it handles the single mail
  itself and never reaches \<open>super().dispatch\<close>, which routes GET to the confirmation
  page and POST to \<open>post\<close>.
\<close>

definition OutboxSend_dispatch :: "request \<Rightarrow> store \<Rightarrow> outcome" where
  "OutboxSend_dispatch r s =
     (case req_pk r of
        Some k \<Rightarrow>
          (case find (\<lambda>m. mail_pk m = k) (event_queued_mails (req_event r) s) of
             None \<Rightarrow>
               \<lparr>out_response = Redirect (Outbox (event_pk (req_event r))),
                out_messages = [error msg_not_exist_or_sent], out_store = s\<rparr>
           | Some mail \<Rightarrow>
               (if mail_sent mail \<noteq> None
                then \<lparr>out_response = Redirect (Outbox (event_pk (req_event r))),
                      out_messages = [error msg_had_been_sent], out_store = s\<rparr>
                else \<lparr>out_response = Redirect (Outbox (event_pk (req_event r))),
                      out_messages = [success ''The mail has been sent.''],
                      out_store = send (req_now r) (Some (req_user r)) mail s\<rparr>))
      | None \<Rightarrow>
          (case req_method r of
             GET \<Rightarrow> \<lparr>out_response = Render ''orga/mails/confirm.html'', out_messages = [], out_store = s\<rparr>
           | POST \<Rightarrow> OutboxSend_post r s))"

subsection \<open>OutboxPurge\<close>

definition OutboxPurge_queryset :: "request \<Rightarrow> store \<Rightarrow> queued_mail list" where
  "OutboxPurge_queryset r s =
     (let qs = filter (\<lambda>m. mail_sent m = None) (event_queued_mails (req_event r) s)
      in case req_pk r of Some k \<Rightarrow> filter (\<lambda>m. mail_pk m = k) qs | None \<Rightarrow> qs)"

text \<open>\<open>qs.delete()\<close>: the rows of the queryset leave the table.\<close>

definition qs_delete :: "queued_mail list \<Rightarrow> store \<Rightarrow> store" where
  "qs_delete qs s =
     s\<lparr>queued_mails := filter (\<lambda>m. m \<notin> set qs) (queued_mails s),
       trace := trace s @ [QsDelete (map mail_pk qs)]\<rparr>"

definition OutboxPurge_post :: "request \<Rightarrow> store \<Rightarrow> outcome" where
  "OutboxPurge_post r s =
     (let qs = OutboxPurge_queryset r s;
          count = length qs;
          s1 = qs_delete qs s
      in \<lparr>out_response = Redirect (Outbox (event_pk (req_event r))),
          out_messages = [success_count ''{count} mails have been purged.'' count],
          out_store = s1\<rparr>)"

text \<open>
  As in OutboxSend, but the lookup is \<open>get(sent__isnull=True, pk=...)\<close>: a sent mail
  is not found.
\<close>

definition OutboxPurge_dispatch :: "request \<Rightarrow> store \<Rightarrow> outcome" where
  "OutboxPurge_dispatch r s =
     (case req_pk r of
        Some k \<Rightarrow>
          (case find (\<lambda>m. mail_sent m = None \<and> mail_pk m = k) (event_queued_mails (req_event r) s) of
             None \<Rightarrow>
               \<lparr>out_response = Redirect (Outbox (event_pk (req_event r))),
                out_messages = [error msg_not_exist_or_sent], out_store = s\<rparr>
           | Some mail \<Rightarrow>
               (if mail_sent mail \<noteq> None
                then \<lparr>out_response = Redirect (Outbox (event_pk (req_event r))),
                      out_messages = [error msg_had_been_sent], out_store = s\<rparr>
                else \<lparr>out_response = Redirect (Outbox (event_pk (req_event r))),
                      out_messages = [success ''The mail has been deleted.''],
                      out_store =
                        delete_mail mail
                          (log_action ''pretalx.mail.delete'' (MailRef (Some (mail_pk mail)))
                             (req_user r) True s)\<rparr>))
      | None \<Rightarrow>
          (case req_method r of
             GET \<Rightarrow> \<lparr>out_response = Render ''orga/mails/confirm.html'', out_messages = [], out_store = s\<rparr>
           | POST \<Rightarrow> OutboxPurge_post r s))"

subsection \<open>MailDetail\<close>

text \<open>
  MailDetailForm (pretalx.orga.forms.mails) is a model form on QueuedMail: Django
  validates the POST data and writes the cleaned content fields onto \<open>form.instance\<close>.
  \<open>mdf_form\<close> is \<open>form.data.get('form')\<close>, the action selector.
\<close>

record mail_detail_form =
  mdf_is_valid :: bool
  mdf_has_changed :: bool
  mdf_to :: "string option"
  mdf_reply_to :: "string option"
  mdf_cc :: "string option"
  mdf_bcc :: "string option"
  mdf_subject :: "string option"
  mdf_text :: "string option"
  mdf_form :: "string option"

definition MailDetail_get_object :: "request \<Rightarrow> store \<Rightarrow> queued_mail option" where
  "MailDetail_get_object r s =
     find (\<lambda>m. Some (mail_pk m) = req_pk r) (event_queued_mails (req_event r) s)"

text \<open>
  \<open>form.instance\<close>: the object of the view with the cleaned fields, or a new QueuedMail
  when there is none. A new instance has no primary key before it is saved; it is
  written with the key the save gives it. \<open>form.instance.event = self.request.event\<close>
  is the first statement of \<open>form_valid\<close>.
\<close>

definition MailDetail_instance ::
  "request \<Rightarrow> mail_detail_form \<Rightarrow> queued_mail option \<Rightarrow> store \<Rightarrow> queued_mail" where
  "MailDetail_instance r form obj s =
     (let base =
        (case obj of
           Some m \<Rightarrow> m
         | None \<Rightarrow>
             \<lparr>mail_pk = next_pk s, mail_event = event_pk (req_event r), mail_to = None,
              mail_to_users = [], mail_reply_to = None, mail_cc = None, mail_bcc = None,
              mail_subject = None, mail_text = None, mail_sent = None\<rparr>)
      in base\<lparr>mail_event := event_pk (req_event r), mail_to := mdf_to form,
              mail_reply_to := mdf_reply_to form, mail_cc := mdf_cc form, mail_bcc := mdf_bcc form,
              mail_subject := mdf_subject form, mail_text := mdf_text form\<rparr>)"

text \<open>
  \<open>form.save()\<close>: the row of an existing object is updated, a new instance is
  inserted.
\<close>

definition save_mail :: "queued_mail option \<Rightarrow> queued_mail \<Rightarrow> store \<Rightarrow> store" where
  "save_mail obj instance s =
     (case obj of
        Some m \<Rightarrow>
          s\<lparr>queued_mails := map (\<lambda>x. if mail_pk x = mail_pk m then instance else x) (queued_mails s)\<rparr>
      | None \<Rightarrow> s\<lparr>queued_mails := queued_mails s @ [instance], next_pk := Suc (next_pk s)\<rparr>)"

definition msg_cannot_edit :: string where
  "msg_cannot_edit = ''The email has already been sent, you cannot edit it anymore.''"

definition msg_email_saved :: string where
  "msg_email_saved = ''The email has been saved. When you send it, the updated text will be used.''"

text \<open>
  \<open>super().form_valid(form)\<close> is Django's \<open>ModelFormMixin.form_valid\<close>: it assigns
  \<open>self.object = form.save()\<close> and returns the redirect to \<open>get_success_url()\<close>.
  The view reads \<open>self.object\<close> after that call, when it holds the saved instance.
\<close>

definition MailDetail_form_valid :: "request \<Rightarrow> mail_detail_form \<Rightarrow> store \<Rightarrow> outcome" where
  "MailDetail_form_valid r form s =
     (let self_object = MailDetail_get_object r s;
          instance = MailDetail_instance r form self_object s
      in if mail_sent instance \<noteq> None
         then \<lparr>out_response = Redirect (Outbox (event_pk (req_event r))),
               out_messages = [error msg_cannot_edit], out_store = s\<rparr>
         else
           (let s1 = save_mail self_object instance s;
                self_object = Some instance;
                result = Redirect (Outbox (event_pk (req_event r)));
                s2 = (if mdf_has_changed form
                      then log_action
                             (''pretalx.mail.'' @ (if self_object \<noteq> None then ''update'' else ''create''))
                             (MailRef (Some (mail_pk instance))) (req_user r) True s1
                      else s1);
                action = (case mdf_form form of None \<Rightarrow> ''save'' | Some a \<Rightarrow> a)
            in if action = ''save''
               then \<lparr>out_response = result, out_messages = [success msg_email_saved], out_store = s2\<rparr>
               else if action = ''send''
               then \<lparr>out_response = result, out_messages = [success ''The email has been sent.''],
                     out_store = send (req_now r) None instance s2\<rparr>
               else \<lparr>out_response = result, out_messages = [], out_store = s2\<rparr>))"

text \<open>CreateOrUpdateView: GET renders the form, POST validates it.\<close>

definition MailDetail_dispatch :: "request \<Rightarrow> mail_detail_form \<Rightarrow> store \<Rightarrow> outcome" where
  "MailDetail_dispatch r form s =
     (case req_method r of
        GET \<Rightarrow> \<lparr>out_response = Render ''orga/mails/outbox_form.html'', out_messages = [], out_store = s\<rparr>
      | POST \<Rightarrow>
          (if mdf_is_valid form then MailDetail_form_valid r form s
           else \<lparr>out_response = Render ''orga/mails/outbox_form.html'', out_messages = [], out_store = s\<rparr>))"

subsection \<open>MailCopy\<close>

text \<open>\<open>dispatch\<close> is overridden and does not look at the request method.\<close>

definition MailCopy_dispatch :: "request \<Rightarrow> store \<Rightarrow> outcome" where
  "MailCopy_dispatch r s =
     (case find (\<lambda>m. Some (mail_pk m) = req_pk r) (event_queued_mails (req_event r) s) of
        None \<Rightarrow> \<lparr>out_response = Http404, out_messages = [], out_store = s\<rparr>
      | Some mail \<Rightarrow>
          (let (new_mail, s1) = copy_to_draft mail s
           in \<lparr>out_response = Redirect (MailEdit (mail_pk new_mail)),
               out_messages = [success ''The mail has been copied, you can edit it now.''],
               out_store = s1\<rparr>))"

subsection \<open>TemplateDetail, TemplateDelete\<close>

record mail_template_form =
  mtf_is_valid :: bool
  mtf_has_changed :: bool
  mtf_subject :: string
  mtf_text :: string
  mtf_reply_to :: "string option"
  mtf_bcc :: "string option"

definition TemplateDetail_get_object :: "request \<Rightarrow> store \<Rightarrow> mail_template option" where
  "TemplateDetail_get_object r s =
     find (\<lambda>t. tpl_event t = event_pk (req_event r) \<and> Some (tpl_pk t) = req_pk r) (mail_templates s)"

definition TemplateDetail_instance ::
  "request \<Rightarrow> mail_template_form \<Rightarrow> mail_template option \<Rightarrow> store \<Rightarrow> mail_template" where
  "TemplateDetail_instance r form obj s =
     \<lparr>tpl_pk = (case obj of Some t \<Rightarrow> tpl_pk t | None \<Rightarrow> next_pk s),
      tpl_event = event_pk (req_event r), tpl_subject = mtf_subject form, tpl_text = mtf_text form,
      tpl_reply_to = mtf_reply_to form, tpl_bcc = mtf_bcc form\<rparr>"

definition save_template :: "mail_template option \<Rightarrow> mail_template \<Rightarrow> store \<Rightarrow> store" where
  "save_template obj instance s =
     (case obj of
        Some t \<Rightarrow>
          s\<lparr>mail_templates := map (\<lambda>x. if tpl_pk x = tpl_pk t then instance else x) (mail_templates s)\<rparr>
      | None \<Rightarrow> s\<lparr>mail_templates := mail_templates s @ [instance], next_pk := Suc (next_pk s)\<rparr>)"

definition msg_template_saved :: string where
  "msg_template_saved =
     ''The template has been saved - note that already pending emails that are based on this template will not be changed!''"

text \<open>
  Here the audit entry is written before \<open>super().form_valid(form)\<close> saves:
  \<open>self.object\<close> is still what \<open>get_object\<close> found, and a new instance has no key yet.
\<close>

definition TemplateDetail_form_valid :: "request \<Rightarrow> mail_template_form \<Rightarrow> store \<Rightarrow> outcome" where
  "TemplateDetail_form_valid r form s =
     (let self_object = TemplateDetail_get_object r s;
          instance = TemplateDetail_instance r form self_object s;
          s1 = (if mtf_has_changed form
                then log_action
                       (''pretalx.mail_template.'' @ (if self_object \<noteq> None then ''update'' else ''create''))
                       (TemplateRef (map_option tpl_pk self_object)) (req_user r) True s
                else s)
      in \<lparr>out_response = Redirect (MailTemplates (event_pk (req_event r))),
          out_messages = [success msg_template_saved],
          out_store = save_template self_object instance s1\<rparr>)"

definition TemplateDetail_dispatch :: "request \<Rightarrow> mail_template_form \<Rightarrow> store \<Rightarrow> outcome" where
  "TemplateDetail_dispatch r form s =
     (case req_method r of
        GET \<Rightarrow> \<lparr>out_response = Render ''orga/mails/template_form.html'', out_messages = [], out_store = s\<rparr>
      | POST \<Rightarrow>
          (if mtf_is_valid form then TemplateDetail_form_valid r form s
           else \<lparr>out_response = Render ''orga/mails/template_form.html'', out_messages = [], out_store = s\<rparr>))"

text \<open>
  \<open>dispatch\<close> calls \<open>super().dispatch\<close> and drops its response, then deletes whatever
  the request method is.
\<close>

definition TemplateDelete_dispatch :: "request \<Rightarrow> store \<Rightarrow> outcome" where
  "TemplateDelete_dispatch r s =
     (case find (\<lambda>t. tpl_event t = event_pk (req_event r) \<and> Some (tpl_pk t) = req_pk r) (mail_templates s) of
        None \<Rightarrow> \<lparr>out_response = Http404, out_messages = [], out_store = s\<rparr>
      | Some template \<Rightarrow>
          \<lparr>out_response = Redirect (MailTemplates (event_pk (req_event r))),
           out_messages = [success ''The template has been deleted.''],
           out_store =
             delete_template template
               (log_action ''pretalx.mail_template.delete'' (TemplateRef (Some (tpl_pk template)))
                  (req_user r) True s)\<rparr>)"

subsection \<open>The handlers of the module\<close>

text \<open>One invocation of a view: the request, and the bound form where the view has one.\<close>

datatype invocation =
    OutboxList request
  | SentMail request
  | OutboxSend request
  | OutboxPurge request
  | MailDetail request mail_detail_form
  | MailCopy request
  | ComposeMail request write_mail_form
  | TemplateList request
  | TemplateDetail request mail_template_form
  | TemplateDelete request

fun handle :: "invocation \<Rightarrow> store \<Rightarrow> outcome" where
  "handle (OutboxList r) s = OutboxList_dispatch r s"
| "handle (SentMail r) s = SentMail_dispatch r s"
| "handle (OutboxSend r) s = OutboxSend_dispatch r s"
| "handle (OutboxPurge r) s = OutboxPurge_dispatch r s"
| "handle (MailDetail r form) s = MailDetail_dispatch r form s"
| "handle (MailCopy r) s = MailCopy_dispatch r s"
| "handle (ComposeMail r form) s = ComposeMail_dispatch r form s"
| "handle (TemplateList r) s = TemplateList_dispatch r s"
| "handle (TemplateDetail r form) s = TemplateDetail_dispatch r form s"
| "handle (TemplateDelete r) s = TemplateDelete_dispatch r s"

fun inv_request :: "invocation \<Rightarrow> request" where
  "inv_request (OutboxList r) = r"
| "inv_request (SentMail r) = r"
| "inv_request (OutboxSend r) = r"
| "inv_request (OutboxPurge r) = r"
| "inv_request (MailDetail r form) = r"
| "inv_request (MailCopy r) = r"
| "inv_request (ComposeMail r form) = r"
| "inv_request (TemplateList r) = r"
| "inv_request (TemplateDetail r form) = r"
| "inv_request (TemplateDelete r) = r"

subsection \<open>Notions used in the statements\<close>

text \<open>The rows a handler has added at the end of the mail table.\<close>

definition created :: "store \<Rightarrow> store \<Rightarrow> queued_mail list" where
  "created s s' = drop (length (queued_mails s)) (queued_mails s')"

text \<open>Consecutive primary keys, as a run of \<open>create\<close> calls assigns them.\<close>

fun with_pks :: "pk \<Rightarrow> queued_mail list \<Rightarrow> queued_mail list" where
  "with_pks n [] = []"
| "with_pks n (m # ms) = m\<lparr>mail_pk := n\<rparr> # with_pks (Suc n) ms"

text \<open>The mails of the second loop of the compose view, and those of its last loop.\<close>

definition standalone_mails :: "event \<Rightarrow> write_mail_form \<Rightarrow> store \<Rightarrow> string list \<Rightarrow> queued_mail list" where
  "standalone_mails ev form s es =
     map (\<lambda>e. (compose_mail ev form)\<lparr>mail_to := Some e\<rparr>) (filter (\<lambda>e. user_by_email s e = None) es)"

definition user_mails :: "event \<Rightarrow> write_mail_form \<Rightarrow> pk list \<Rightarrow> queued_mail list" where
  "user_mails ev form us = map (\<lambda>u. (compose_mail ev form)\<lparr>mail_to_users := [u]\<rparr>) us"

text \<open>
  The mail table is well formed when primary keys are unique and below the next key to
  be assigned, as the database keeps them.
\<close>

definition wf_store :: "store \<Rightarrow> bool" where
  "wf_store s = (distinct (map mail_pk (queued_mails s)) \<and> (\<forall>x \<in> set (queued_mails s). mail_pk x < next_pk s))"

text \<open>A sequence of requests, each handled on the store the previous one left.\<close>

fun run :: "invocation list \<Rightarrow> store \<Rightarrow> store" where
  "run [] s = s"
| "run (i # rest) s = run rest (out_store (handle i s))"


text \<open>
  The handlers that do their work in an overridden \<open>dispatch\<close>, before the framework routes
  the request by method: single-record send and purge, mail copy, template delete.
\<close>

fun acts_in_dispatch :: "invocation \<Rightarrow> bool" where
  "acts_in_dispatch (OutboxSend r) = (req_pk r \<noteq> None)"
| "acts_in_dispatch (OutboxPurge r) = (req_pk r \<noteq> None)"
| "acts_in_dispatch (MailCopy r) = True"
| "acts_in_dispatch (TemplateDelete r) = True"
| "acts_in_dispatch (OutboxList r) = False"
| "acts_in_dispatch (SentMail r) = False"
| "acts_in_dispatch (MailDetail r form) = False"
| "acts_in_dispatch (ComposeMail r form) = False"
| "acts_in_dispatch (TemplateList r) = False"
| "acts_in_dispatch (TemplateDetail r form) = False"

text \<open>The same invocation under another request method.\<close>

fun set_method :: "http_method \<Rightarrow> invocation \<Rightarrow> invocation" where
  "set_method mth (OutboxList r) = OutboxList (r\<lparr>req_method := mth\<rparr>)"
| "set_method mth (SentMail r) = SentMail (r\<lparr>req_method := mth\<rparr>)"
| "set_method mth (OutboxSend r) = OutboxSend (r\<lparr>req_method := mth\<rparr>)"
| "set_method mth (OutboxPurge r) = OutboxPurge (r\<lparr>req_method := mth\<rparr>)"
| "set_method mth (MailDetail r form) = MailDetail (r\<lparr>req_method := mth\<rparr>) form"
| "set_method mth (MailCopy r) = MailCopy (r\<lparr>req_method := mth\<rparr>)"
| "set_method mth (ComposeMail r form) = ComposeMail (r\<lparr>req_method := mth\<rparr>) form"
| "set_method mth (TemplateList r) = TemplateList (r\<lparr>req_method := mth\<rparr>)"
| "set_method mth (TemplateDetail r form) = TemplateDetail (r\<lparr>req_method := mth\<rparr>) form"
| "set_method mth (TemplateDelete r) = TemplateDelete (r\<lparr>req_method := mth\<rparr>)"

text \<open>
  Where each handler redirects after its action: the outbox, the compose page, the
  template list, or the edit page of the draft a copy creates.
\<close>

fun redirect_target :: "invocation \<Rightarrow> store \<Rightarrow> url option" where
  "redirect_target (OutboxSend r) s = Some (Outbox (event_pk (req_event r)))"
| "redirect_target (OutboxPurge r) s = Some (Outbox (event_pk (req_event r)))"
| "redirect_target (MailDetail r form) s = Some (Outbox (event_pk (req_event r)))"
| "redirect_target (MailCopy r) s = Some (MailEdit (next_pk s))"
| "redirect_target (ComposeMail r form) s = Some (ComposeMails (event_pk (req_event r)))"
| "redirect_target (TemplateDetail r form) s = Some (MailTemplates (event_pk (req_event r)))"
| "redirect_target (TemplateDelete r) s = Some (MailTemplates (event_pk (req_event r)))"
| "redirect_target (OutboxList r) s = None"
| "redirect_target (SentMail r) s = None"
| "redirect_target (TemplateList r) s = None"

text \<open>The action selector of the mail form is absent, \<open>save\<close> or \<open>send\<close>.\<close>

fun known_action :: "invocation \<Rightarrow> bool" where
  "known_action (MailDetail r form) = (mdf_form form \<in> {None, Some ''save'', Some ''send''})"
| "known_action i = True"


subsection \<open>Concrete inputs\<close>

text \<open>
  A small installation used to run the handlers: event 1 with its outgoing address,
  one user, mails of two events in both states, and a template of event 2.
\<close>

definition ex_event :: event where
  "ex_event = \<lparr>event_pk = 1, event_email = ''orga@conf.org''\<rparr>"

definition no_query :: query where
  "no_query = \<lparr>q_template = None, q_submission = None, q_email = None\<rparr>"

definition ex_request :: "http_method \<Rightarrow> pk option \<Rightarrow> query \<Rightarrow> request" where
  "ex_request m k q =
     \<lparr>req_method = m, req_event = ex_event, req_user = 3, req_pk = k, req_GET = q, req_now = 100\<rparr>"

definition ex_mail :: "pk \<Rightarrow> pk \<Rightarrow> timestamp option \<Rightarrow> queued_mail" where
  "ex_mail k ev t =
     \<lparr>mail_pk = k, mail_event = ev, mail_to = Some ''c@z.org'', mail_to_users = [],
      mail_reply_to = None, mail_cc = None, mail_bcc = None, mail_subject = Some ''Hello'',
      mail_text = Some ''Body'', mail_sent = t\<rparr>"

definition ex_template :: mail_template where
  "ex_template =
     \<lparr>tpl_pk = 5, tpl_event = 2, tpl_subject = ''Welcome'', tpl_text = ''Dear speaker'',
      tpl_reply_to = Some ''team@other.org'', tpl_bcc = None\<rparr>"

definition ex_store :: store where
  "ex_store =
     \<lparr>users = [\<lparr>user_pk = 7, user_email = ''a@x.com''\<rparr>], submissions = [], teams = [],
      queued_mails = [ex_mail 1 1 (Some 50), ex_mail 2 1 None, ex_mail 3 2 None, ex_mail 4 1 None],
      mail_templates = [ex_template], next_pk = 6, trace = []\<rparr>"

text \<open>The compose form of the example in the specification: three addresses, no other filter.\<close>

definition ex_form :: write_mail_form where
  "ex_form =
     \<lparr>wmf_is_valid = True, cd_submissions = [], cd_tracks = [], cd_submission_types = [],
      cd_recipients = [], cd_additional_recipients = ''a@x.com, A@X.com, b@y.com'',
      cd_reply_to = None, cd_cc = None, cd_bcc = None, cd_subject = Some ''Hi'',
      cd_text = Some ''Text''\<rparr>"

text \<open>A changed, valid mail form with the default action, and a changed template form.\<close>

definition ex_mdf :: mail_detail_form where
  "ex_mdf =
     \<lparr>mdf_is_valid = True, mdf_has_changed = True, mdf_to = Some ''d@w.org'', mdf_reply_to = None,
      mdf_cc = None, mdf_bcc = None, mdf_subject = Some ''News'', mdf_text = Some ''Changed text'',
      mdf_form = None\<rparr>"

definition ex_mtf :: mail_template_form where
  "ex_mtf =
     \<lparr>mtf_is_valid = True, mtf_has_changed = True, mtf_subject = ''Reminder'',
      mtf_text = ''Please confirm'', mtf_reply_to = None, mtf_bcc = None\<rparr>"


text \<open>
  The same form with the \<open>reply_to\<close> field left blank (a valid form then has the key
  with the empty string), and with an address of no user written twice.
\<close>

definition ex_form_blank :: write_mail_form where
  "ex_form_blank = ex_form\<lparr>cd_reply_to := Some ''''\<rparr>"

definition ex_form_dup :: write_mail_form where
  "ex_form_dup = ex_form\<lparr>cd_additional_recipients := ''b@y.com, B@Y.com''\<rparr>"

section \<open>Verified properties\<close>

subsection \<open>Auxiliary facts\<close>

lemma find_distinct_key:
  "distinct (map f xs) \<Longrightarrow> x \<in> set xs \<Longrightarrow> find (\<lambda>y. f y = f x) xs = Some x"
  by (induction xs) (auto simp: image_iff)

lemma find_filter_distinct_key:
  "distinct (map f xs) \<Longrightarrow> x \<in> set xs \<Longrightarrow> Q x \<Longrightarrow> find (\<lambda>y. f y = f x) (filter Q xs) = Some x"
  by (induction xs) (auto simp: image_iff)

lemma find_filter_distinct_key2:
  "distinct (map f xs) \<Longrightarrow> x \<in> set xs \<Longrightarrow> Q x \<Longrightarrow> P x \<Longrightarrow>
     find (\<lambda>y. P y \<and> f y = f x) (filter Q xs) = Some x"
  by (induction xs) (auto simp: image_iff)

lemma distinct_key_eq:
  "distinct (map f xs) \<Longrightarrow> x \<in> set xs \<Longrightarrow> y \<in> set xs \<Longrightarrow> f x = f y \<Longrightarrow> x = y"
  by (meson distinct_map inj_on_def)

subsection \<open>Compose prefill\<close>

text \<open>
  C10. The \<open>template\<close> query parameter of the compose form is resolved over all mail
  templates: whenever a template with the given id is in the table, its subject, text,
  reply_to and bcc are the initial values of the form. The event of the template does
  not enter the lookup, so a template of another event is copied as well.
\<close>

theorem compose_prefill_ignores_event:
  assumes "q_template (req_GET r) = Some (tpl_pk t)"
    and "t \<in> set (mail_templates s)"
    and "distinct (map tpl_pk (mail_templates s))"
  shows "ComposeMail_get_form_kwargs r s ''subject'' = Some (Some (tpl_subject t))
       \<and> ComposeMail_get_form_kwargs r s ''text'' = Some (Some (tpl_text t))
       \<and> ComposeMail_get_form_kwargs r s ''reply_to'' = Some (tpl_reply_to t)
       \<and> ComposeMail_get_form_kwargs r s ''bcc'' = Some (tpl_bcc t)"
proof -
  have "find (\<lambda>y. tpl_pk y = tpl_pk t) (mail_templates s) = Some t"
    using assms(2,3) by (simp add: find_distinct_key)
  then show ?thesis
    using assms(1) by (simp add: ComposeMail_get_form_kwargs_def Let_def split: option.splits)
qed

text \<open>The template of event 2 prefills the compose form of event 1.\<close>

theorem compose_prefill_ignores_event_witness:
  "tpl_event ex_template \<noteq> event_pk (req_event (ex_request GET None (no_query\<lparr>q_template := Some 5\<rparr>)))
   \<and> ex_template \<in> set (mail_templates ex_store)
   \<and> ComposeMail_get_form_kwargs (ex_request GET None (no_query\<lparr>q_template := Some 5\<rparr>)) ex_store ''subject''
       = Some (Some ''Welcome'')
   \<and> ComposeMail_get_form_kwargs (ex_request GET None (no_query\<lparr>q_template := Some 5\<rparr>)) ex_store ''reply_to''
       = Some (Some ''team@other.org'')"
proof -
  let ?r = "ex_request GET None (no_query\<lparr>q_template := Some 5\<rparr>)"
  have h1: "q_template (req_GET ?r) = Some (tpl_pk ex_template)"
    by (simp add: ex_request_def no_query_def ex_template_def)
  have h2: "ex_template \<in> set (mail_templates ex_store)"
    by (simp add: ex_store_def)
  have h3: "distinct (map tpl_pk (mail_templates ex_store))"
    by (simp add: ex_store_def)
  have h4: "tpl_event ex_template \<noteq> event_pk (req_event ?r)"
    by (simp add: ex_request_def ex_event_def ex_template_def)
  from compose_prefill_ignores_event [OF h1 h2 h3] h2 h4 show ?thesis
    by (simp add: ex_template_def)
qed

subsection \<open>Bulk purge\<close>

text \<open>
  C9. A bulk purge (POST without a \<open>pk\<close>) removes exactly the mails of the event
  whose \<open>sent\<close> is null: the table afterwards is the old table without those rows, every
  mail with \<open>sent\<close> set is still there, and the count in the message is the number of
  rows removed.
\<close>

theorem bulk_purge_exact:
  assumes "req_pk r = None" and "req_method r = POST"
  shows "queued_mails (out_store (OutboxPurge_dispatch r s)) =
           filter (\<lambda>m. \<not> (mail_event m = event_pk (req_event r) \<and> mail_sent m = None)) (queued_mails s)
       \<and> (\<forall>m \<in> set (queued_mails s). mail_sent m \<noteq> None \<longrightarrow>
             m \<in> set (queued_mails (out_store (OutboxPurge_dispatch r s))))
       \<and> out_messages (OutboxPurge_dispatch r s) =
           [success_count ''{count} mails have been purged.''
              (length (queued_mails s) - length (queued_mails (out_store (OutboxPurge_dispatch r s))))]"
proof -
  let ?P = "\<lambda>m. mail_event m = event_pk (req_event r) \<and> mail_sent m = None"
  have qs: "OutboxPurge_queryset r s = filter ?P (queued_mails s)"
    using assms(1) by (simp add: OutboxPurge_queryset_def event_queued_mails_def conj_commute)
  have st: "queued_mails (out_store (OutboxPurge_dispatch r s)) = filter (\<lambda>m. \<not> ?P m) (queued_mails s)"
    using assms
    by (auto simp add: OutboxPurge_dispatch_def OutboxPurge_post_def qs_delete_def qs Let_def
        intro!: filter_cong)
  have len: "length (filter ?P (queued_mails s)) =
               length (queued_mails s) - length (filter (\<lambda>m. \<not> ?P m) (queued_mails s))"
    using sum_length_filter_compl [of ?P "queued_mails s"] by simp
  have msg: "out_messages (OutboxPurge_dispatch r s) =
               [success_count ''{count} mails have been purged.'' (length (filter ?P (queued_mails s)))]"
    using assms by (simp add: OutboxPurge_dispatch_def OutboxPurge_post_def qs Let_def)
  show ?thesis
    unfolding st msg len by auto
qed

text \<open>
  On the example store the purge of event 1 removes mails 2 and 4, keeps the sent
  mail 1 and mail 3 of event 2, and reports 2.
\<close>

theorem bulk_purge_exact_witness:
  "req_pk (ex_request POST None no_query) = None
   \<and> req_method (ex_request POST None no_query) = POST
   \<and> ex_mail 1 1 (Some 50) \<in> set (queued_mails ex_store)
   \<and> queued_mails (out_store (OutboxPurge_dispatch (ex_request POST None no_query) ex_store))
       = [ex_mail 1 1 (Some 50), ex_mail 3 2 None]
   \<and> out_messages (OutboxPurge_dispatch (ex_request POST None no_query) ex_store)
       = [success_count ''{count} mails have been purged.'' 2]"
proof -
  let ?r = "ex_request POST None no_query"
  have h1: "req_pk ?r = None" by (simp add: ex_request_def)
  have h2: "req_method ?r = POST" by (simp add: ex_request_def)
  have ev: "event_pk (req_event ?r) = 1" by (simp add: ex_request_def ex_event_def)
  have mails: "queued_mails ex_store =
                 [ex_mail 1 1 (Some 50), ex_mail 2 1 None, ex_mail 3 2 None, ex_mail 4 1 None]"
    by (simp add: ex_store_def)
  from bulk_purge_exact [OF h1 h2, of ex_store] h1 h2 show ?thesis
    by (simp add: ev mails ex_mail_def numeral_2_eq_2)
qed

subsection \<open>Single-record send\<close>

text \<open>
  C7. A single-record send (a request with a \<open>pk\<close>) has three outcomes. If no mail of
  the event has that key, or the mail of that key is already sent, the handler reports
  an error and returns the store as it was. Otherwise it calls \<open>send\<close> on the mail once,
  with the acting user as requestor, and reports success. (Primary keys are unique in
  the table.)
\<close>

theorem single_send_cases:
  assumes "req_pk r = Some k"
  shows "((\<forall>m \<in> set (queued_mails s). \<not> (mail_event m = event_pk (req_event r) \<and> mail_pk m = k)) \<longrightarrow>
            OutboxSend_dispatch r s =
              \<lparr>out_response = Redirect (Outbox (event_pk (req_event r))),
               out_messages = [error msg_not_exist_or_sent], out_store = s\<rparr>)
       \<and> (\<forall>m \<in> set (queued_mails s).
            distinct (map mail_pk (queued_mails s)) \<and> mail_event m = event_pk (req_event r)
              \<and> mail_pk m = k \<and> mail_sent m \<noteq> None \<longrightarrow>
            OutboxSend_dispatch r s =
              \<lparr>out_response = Redirect (Outbox (event_pk (req_event r))),
               out_messages = [error msg_had_been_sent], out_store = s\<rparr>)
       \<and> (\<forall>m \<in> set (queued_mails s).
            distinct (map mail_pk (queued_mails s)) \<and> mail_event m = event_pk (req_event r)
              \<and> mail_pk m = k \<and> mail_sent m = None \<longrightarrow>
            out_response (OutboxSend_dispatch r s) = Redirect (Outbox (event_pk (req_event r)))
            \<and> out_messages (OutboxSend_dispatch r s) = [success ''The mail has been sent.'']
            \<and> out_store (OutboxSend_dispatch r s) = send (req_now r) (Some (req_user r)) m s
            \<and> trace (out_store (OutboxSend_dispatch r s)) = trace s @ [SendCall k (Some (req_user r))])"
proof (intro conjI ballI impI)
  assume "\<forall>m \<in> set (queued_mails s). \<not> (mail_event m = event_pk (req_event r) \<and> mail_pk m = k)"
  then have "find (\<lambda>m. mail_pk m = k) (event_queued_mails (req_event r) s) = None"
    by (auto simp: find_None_iff event_queued_mails_def)
  then show "OutboxSend_dispatch r s =
              \<lparr>out_response = Redirect (Outbox (event_pk (req_event r))),
               out_messages = [error msg_not_exist_or_sent], out_store = s\<rparr>"
    using assms by (simp add: OutboxSend_dispatch_def)
next
  fix m
  assume m: "m \<in> set (queued_mails s)"
    and h: "distinct (map mail_pk (queued_mails s)) \<and> mail_event m = event_pk (req_event r)
              \<and> mail_pk m = k \<and> mail_sent m \<noteq> None"
  then have "find (\<lambda>y. mail_pk y = mail_pk m) (event_queued_mails (req_event r) s) = Some m"
    unfolding event_queued_mails_def by (intro find_filter_distinct_key) auto
  then show "OutboxSend_dispatch r s =
              \<lparr>out_response = Redirect (Outbox (event_pk (req_event r))),
               out_messages = [error msg_had_been_sent], out_store = s\<rparr>"
    using assms h by (auto simp add: OutboxSend_dispatch_def)
next
  fix m
  assume m: "m \<in> set (queued_mails s)"
    and h: "distinct (map mail_pk (queued_mails s)) \<and> mail_event m = event_pk (req_event r)
              \<and> mail_pk m = k \<and> mail_sent m = None"
  then have "find (\<lambda>y. mail_pk y = mail_pk m) (event_queued_mails (req_event r) s) = Some m"
    unfolding event_queued_mails_def by (intro find_filter_distinct_key) auto
  then have out: "OutboxSend_dispatch r s =
     \<lparr>out_response = Redirect (Outbox (event_pk (req_event r))),
      out_messages = [success ''The mail has been sent.''],
      out_store = send (req_now r) (Some (req_user r)) m s\<rparr>"
    using assms h by (auto simp add: OutboxSend_dispatch_def)
  show "out_response (OutboxSend_dispatch r s) = Redirect (Outbox (event_pk (req_event r)))"
    by (simp add: out)
  show "out_messages (OutboxSend_dispatch r s) = [success ''The mail has been sent.'']"
    by (simp add: out)
  show "out_store (OutboxSend_dispatch r s) = send (req_now r) (Some (req_user r)) m s"
    by (simp add: out)
  show "trace (out_store (OutboxSend_dispatch r s)) = trace s @ [SendCall k (Some (req_user r))]"
    using h by (simp add: out send_def)
qed

text \<open>
  On the example store: mail 3 belongs to another event, mail 1 is sent, mail 2 is
  sent by the request.
\<close>

theorem single_send_cases_witness:
  "OutboxSend_dispatch (ex_request GET (Some 3) no_query) ex_store =
     \<lparr>out_response = Redirect (Outbox 1), out_messages = [error msg_not_exist_or_sent],
      out_store = ex_store\<rparr>
   \<and> OutboxSend_dispatch (ex_request GET (Some 1) no_query) ex_store =
     \<lparr>out_response = Redirect (Outbox 1), out_messages = [error msg_had_been_sent],
      out_store = ex_store\<rparr>
   \<and> out_messages (OutboxSend_dispatch (ex_request GET (Some 2) no_query) ex_store) =
       [success ''The mail has been sent.'']
   \<and> trace (out_store (OutboxSend_dispatch (ex_request GET (Some 2) no_query) ex_store)) =
       [SendCall 2 (Some 3)]"
proof -
  have pk: "\<And>k. req_pk (ex_request GET (Some k) no_query) = Some k"
    by (simp add: ex_request_def)
  have ev: "\<And>k. event_pk (req_event (ex_request GET k no_query)) = 1"
    by (simp add: ex_request_def ex_event_def)
  have us: "\<And>k. req_user (ex_request GET k no_query) = 3"
    by (simp add: ex_request_def)
  have mails: "queued_mails ex_store =
                 [ex_mail 1 1 (Some 50), ex_mail 2 1 None, ex_mail 3 2 None, ex_mail 4 1 None]"
    by (simp add: ex_store_def)
  have tr: "trace ex_store = []"
    by (simp add: ex_store_def)
  from single_send_cases [where r = "ex_request GET (Some 3) no_query" and k = 3 and s = ex_store]
    single_send_cases [where r = "ex_request GET (Some 1) no_query" and k = 1 and s = ex_store]
    single_send_cases [where r = "ex_request GET (Some 2) no_query" and k = 2 and s = ex_store]
  show ?thesis
    by (simp add: pk ev us mails tr ex_mail_def send_def)
qed

subsection \<open>Single-record purge\<close>

text \<open>
  C8. A single-record purge of an existing unsent mail of the event writes the audit
  entry \<open>pretalx.mail.delete\<close> and then deletes the row, in this order. For a mail that
  is already sent the handler reports an error and returns the store as it was: the
  mail is not deleted, and neither is any other mail, whatever the request method.
\<close>

theorem single_purge_cases:
  assumes "req_pk r = Some k" and "distinct (map mail_pk (queued_mails s))"
    and "m \<in> set (queued_mails s)" and "mail_event m = event_pk (req_event r)" and "mail_pk m = k"
  shows "(mail_sent m = None \<longrightarrow>
            trace (out_store (OutboxPurge_dispatch r s)) =
              trace s @ [LogAction ''pretalx.mail.delete'' (MailRef (Some k)) (req_user r) True,
                         DeleteCall (MailRef (Some k))]
            \<and> m \<notin> set (queued_mails (out_store (OutboxPurge_dispatch r s)))
            \<and> out_messages (OutboxPurge_dispatch r s) = [success ''The mail has been deleted.''])
       \<and> (mail_sent m \<noteq> None \<longrightarrow>
            OutboxPurge_dispatch r s =
              \<lparr>out_response = Redirect (Outbox (event_pk (req_event r))),
               out_messages = [error msg_not_exist_or_sent], out_store = s\<rparr>)"
proof (intro conjI impI)
  assume unsent: "mail_sent m = None"
  have "find (\<lambda>y. mail_sent y = None \<and> mail_pk y = mail_pk m) (event_queued_mails (req_event r) s) = Some m"
    unfolding event_queued_mails_def using assms(2,3,4) unsent
    by (intro find_filter_distinct_key2) auto
  then have "find (\<lambda>y. mail_sent y = None \<and> mail_pk y = k) (event_queued_mails (req_event r) s) = Some m"
    using assms(5) by simp
  then have out: "OutboxPurge_dispatch r s =
     \<lparr>out_response = Redirect (Outbox (event_pk (req_event r))),
      out_messages = [success ''The mail has been deleted.''],
      out_store = delete_mail m (log_action ''pretalx.mail.delete'' (MailRef (Some (mail_pk m))) (req_user r) True s)\<rparr>"
    using assms(1) unsent by (simp add: OutboxPurge_dispatch_def)
  show "trace (out_store (OutboxPurge_dispatch r s)) =
              trace s @ [LogAction ''pretalx.mail.delete'' (MailRef (Some k)) (req_user r) True,
                         DeleteCall (MailRef (Some k))]"
    using assms(5) by (simp add: out delete_mail_def log_action_def)
  show "m \<notin> set (queued_mails (out_store (OutboxPurge_dispatch r s)))"
    by (simp add: out delete_mail_def log_action_def)
  show "out_messages (OutboxPurge_dispatch r s) = [success ''The mail has been deleted.'']"
    by (simp add: out)
next
  assume sent: "mail_sent m \<noteq> None"
  have "\<And>x. x \<in> set (queued_mails s) \<Longrightarrow> mail_pk x = k \<Longrightarrow> x = m"
    using assms(2,3,5) distinct_key_eq [of mail_pk "queued_mails s"] by blast
  then have "find (\<lambda>y. mail_sent y = None \<and> mail_pk y = k) (event_queued_mails (req_event r) s) = None"
    using sent by (auto simp: find_None_iff event_queued_mails_def)
  then show "OutboxPurge_dispatch r s =
              \<lparr>out_response = Redirect (Outbox (event_pk (req_event r))),
               out_messages = [error msg_not_exist_or_sent], out_store = s\<rparr>"
    using assms(1) by (simp add: OutboxPurge_dispatch_def)
qed

text \<open>On the example store: mail 2 is unsent and is purged, mail 1 is sent and stays.\<close>

theorem single_purge_cases_witness:
  "trace (out_store (OutboxPurge_dispatch (ex_request POST (Some 2) no_query) ex_store)) =
     [LogAction ''pretalx.mail.delete'' (MailRef (Some 2)) 3 True, DeleteCall (MailRef (Some 2))]
   \<and> ex_mail 2 1 None \<notin> set (queued_mails (out_store (OutboxPurge_dispatch (ex_request POST (Some 2) no_query) ex_store)))
   \<and> OutboxPurge_dispatch (ex_request POST (Some 1) no_query) ex_store =
     \<lparr>out_response = Redirect (Outbox 1), out_messages = [error msg_not_exist_or_sent],
      out_store = ex_store\<rparr>"
proof -
  have pk: "\<And>k. req_pk (ex_request POST (Some k) no_query) = Some k"
    by (simp add: ex_request_def)
  have ev: "\<And>k. event_pk (req_event (ex_request POST k no_query)) = 1"
    by (simp add: ex_request_def ex_event_def)
  have us: "\<And>k. req_user (ex_request POST k no_query) = 3"
    by (simp add: ex_request_def)
  have mails: "queued_mails ex_store =
                 [ex_mail 1 1 (Some 50), ex_mail 2 1 None, ex_mail 3 2 None, ex_mail 4 1 None]"
    by (simp add: ex_store_def)
  have tr: "trace ex_store = []"
    by (simp add: ex_store_def)
  have d: "distinct (map mail_pk (queued_mails ex_store))"
    by (simp add: mails ex_mail_def)
  have m2: "ex_mail 2 1 None \<in> set (queued_mails ex_store)"
    by (simp add: mails)
  have m1: "ex_mail 1 1 (Some 50) \<in> set (queued_mails ex_store)"
    by (simp add: mails)
  from single_purge_cases [where r = "ex_request POST (Some 2) no_query" and k = 2, OF pk d m2]
    single_purge_cases [where r = "ex_request POST (Some 1) no_query" and k = 1, OF pk d m1]
  show ?thesis
    by (simp add: ev us tr ex_mail_def)
qed

subsection \<open>Compose: what the loops create\<close>

lemma with_pks_append: "with_pks n (xs @ ys) = with_pks n xs @ with_pks (n + length xs) ys"
  by (induction xs arbitrary: n) auto

lemma length_with_pks [simp]: "length (with_pks n ms) = length ms"
  by (induction ms arbitrary: n) auto

lemma create_mail_fields:
  "users (snd (create_mail m s)) = users s"
  "queued_mails (snd (create_mail m s)) = queued_mails s @ [m\<lparr>mail_pk := next_pk s\<rparr>]"
  "next_pk (snd (create_mail m s)) = Suc (next_pk s)"
  "trace (snd (create_mail m s)) = trace s"
  "mail_templates (snd (create_mail m s)) = mail_templates s"
  by (simp_all add: create_mail_def Let_def)


lemma additional_loop_users:
  "users (snd (additional_loop ev form es U s)) = users s"
proof (induction es arbitrary: U s)
  case Nil
  show ?case by simp
next
  case (Cons e es)
  show ?case
  proof (cases "user_by_email s e")
    case None
    then show ?thesis
      using Cons.IH [of U "snd (create_mail ((compose_mail ev form)\<lparr>mail_to := Some e\<rparr>) s)"]
      by (simp add: create_mail_fields)
  next
    case (Some u)
    then show ?thesis using Cons.IH [of "List.insert (user_pk u) U" s] by simp
  qed
qed


lemma additional_loop_set:
  "fst (additional_loop ev form es U s) =
     fold List.insert (map user_pk (List.map_filter (user_by_email s) es)) U"
proof (induction es arbitrary: U s)
  case Nil
  show ?case by (simp add: map_filter_simps)
next
  case (Cons e es)
  show ?case
  proof (cases "user_by_email s e")
    case None
    let ?s' = "snd (create_mail ((compose_mail ev form)\<lparr>mail_to := Some e\<rparr>) s)"
    have "user_by_email ?s' = user_by_email s"
      by (rule ext) (simp add: user_by_email_def create_mail_fields)
    then have "fst (additional_loop ev form es U ?s') =
      fold List.insert (map user_pk (List.map_filter (user_by_email s) es)) U"
      using Cons.IH [of U ?s'] by simp
    then show ?thesis using None by (simp add: map_filter_simps)
  next
    case (Some u)
    then show ?thesis using Cons.IH [of "List.insert (user_pk u) U" s]
      by (simp add: map_filter_simps)
  qed
qed


lemma additional_loop_mails:
  "queued_mails (snd (additional_loop ev form es U s)) =
     queued_mails s @ with_pks (next_pk s) (standalone_mails ev form s es)
   \<and> next_pk (snd (additional_loop ev form es U s)) = next_pk s + length (standalone_mails ev form s es)"
proof (induction es arbitrary: U s)
  case Nil
  show ?case by (simp add: standalone_mails_def)
next
  case (Cons e es)
  show ?case
  proof (cases "user_by_email s e")
    case None
    let ?s' = "snd (create_mail ((compose_mail ev form)\<lparr>mail_to := Some e\<rparr>) s)"
    have "user_by_email ?s' = user_by_email s"
      by (rule ext) (simp add: user_by_email_def create_mail_fields)
    then have "standalone_mails ev form ?s' es = standalone_mails ev form s es"
      by (simp add: standalone_mails_def)
    then show ?thesis using None Cons.IH [of U ?s']
      by (simp add: create_mail_fields standalone_mails_def)
  next
    case (Some u)
    then show ?thesis using Cons.IH [of "List.insert (user_pk u) U" s]
      by (simp add: standalone_mails_def)
  qed
qed

lemma user_loop_mails:
  "queued_mails (user_loop ev form us s) = queued_mails s @ with_pks (next_pk s) (user_mails ev form us)
   \<and> next_pk (user_loop ev form us s) = next_pk s + length us"
proof (induction us arbitrary: s)
  case Nil
  show ?case by (simp add: user_mails_def)
next
  case (Cons u us)
  show ?case
    using Cons.IH [of "snd (create_mail ((compose_mail ev form)\<lparr>mail_to_users := [u]\<rparr>) s)"]
    by (simp add: create_mail_fields user_mails_def)
qed

lemma ComposeMail_created:
  "queued_mails (out_store (ComposeMail_form_valid r form s)) =
     queued_mails s
     @ with_pks (next_pk s) (standalone_mails (req_event r) form s (additional_mails form)
                             @ user_mails (req_event r) form (final_user_set r form s))"
proof -
  let ?U0 = "recipients_loop s (req_event r) (cd_recipients form) (users_by_criteria s (req_event r) form)"
  let ?al = "additional_loop (req_event r) form (additional_mails form) ?U0 s"
  have U: "final_user_set r form s = fst ?al"
    by (simp add: final_user_set_def)
  have out: "out_store (ComposeMail_form_valid r form s) = user_loop (req_event r) form (fst ?al) (snd ?al)"
    by (simp add: ComposeMail_form_valid_def Let_def split_beta)
  show ?thesis
    unfolding out U
    by (simp add: user_loop_mails additional_loop_mails with_pks_append)
qed

lemma with_pks_filter_map:
  "(\<And>m k. P (m\<lparr>mail_pk := k\<rparr>) = P m) \<Longrightarrow> (\<And>m k. f (m\<lparr>mail_pk := k\<rparr>) = f m) \<Longrightarrow>
     map f (filter P (with_pks n ms)) = map f (filter P ms)"
  by (induction ms arbitrary: n) auto

lemma with_pks_ball:
  "(\<And>m k. Q (m\<lparr>mail_pk := k\<rparr>) = Q m) \<Longrightarrow> (\<forall>m \<in> set (with_pks n ms). Q m) = (\<forall>m \<in> set ms. Q m)"
  by (induction ms arbitrary: n) auto

lemma fold_insert_set: "set (fold List.insert xs U) = set xs \<union> set U"
  by (induction xs arbitrary: U) auto

lemma fold_insert_distinct: "distinct (fold List.insert xs U) = distinct U"
  by (induction xs arbitrary: U) auto

lemma users_by_criteria_distinct: "distinct (users_by_criteria s ev form)"
  by (simp add: users_by_criteria_def Let_def)

lemma recipients_loop_distinct: "distinct (recipients_loop s ev rs U) = distinct U"
  by (induction rs arbitrary: U) auto

lemma ComposeMail_new:
  "created s (out_store (ComposeMail_form_valid r form s)) =
     with_pks (next_pk s) (standalone_mails (req_event r) form s (additional_mails form)
                           @ user_mails (req_event r) form (final_user_set r form s))"
  by (simp add: created_def ComposeMail_created)

lemma map_filter_set: "set (List.map_filter f xs) = {y. \<exists>x \<in> set xs. f x = Some y}"
  by (induction xs) (auto simp: map_filter_simps split: option.splits)

text \<open>
  The default of \<open>cleaned_data.get('reply_to', event.email)\<close> is taken when the key is
  missing: then every mail the compose view creates answers to the event.
\<close>

lemma reply_to_default_on_missing_key:
  assumes "cd_reply_to form = None"
  shows "\<forall>m \<in> set (created s (out_store (ComposeMail_form_valid r form s))).
           mail_reply_to m = Some (event_email (req_event r))"
  unfolding ComposeMail_new
  using assms
  by (subst with_pks_ball)
     (auto simp: standalone_mails_def user_mails_def compose_mail_def form_reply_to_def)

text \<open>
  C5. A compose form whose \<open>reply_to\<close> field is left blank supplies no reply-to value,
  but its \<open>cleaned_data\<close> holds the key with the empty string, and \<open>dict.get\<close> defaults
  only on a missing key. On the example form with a blank \<open>reply_to\<close>, for an event
  whose outgoing address is \<open>orga@conf.org\<close>, both mails created (the one for user 7 and
  the standalone one) keep the empty \<open>reply_to\<close>; none has the address of the event.
\<close>

theorem compose_blank_reply_to_kept:
  "cd_reply_to ex_form_blank = Some ''''
   \<and> event_email (req_event (ex_request POST None no_query)) = ''orga@conf.org''
   \<and> map mail_reply_to
         (created ex_store (out_store (ComposeMail_form_valid (ex_request POST None no_query) ex_form_blank ex_store)))
       = [Some '''', Some '''']"
  by code_simp

text \<open>
  C2, as stated, fails for an address of no user that is written twice: the loop
  creates a mail for every entry of the list and does not look for repetitions, so
  \<open>b@y.com, B@Y.com\<close> gives two standalone mails to \<open>b@y.com\<close>.
\<close>

theorem compose_repeated_address_counterexample:
  "additional_mails ex_form_dup = [''b@y.com'', ''b@y.com'']
   \<and> user_by_email ex_store ''b@y.com'' = None
   \<and> map mail_to
         (created ex_store (out_store (ComposeMail_form_valid (ex_request POST None no_query) ex_form_dup ex_store)))
       = [Some ''b@y.com'', Some ''b@y.com'']"
  by code_simp

text \<open>
  C2, amended. The compose view walks the normalized additional addresses (split on
  comma, trimmed, lowercased, empty pieces dropped) entry by entry. The mails it adds
  are, first, one standalone mail for each entry that matches no user, addressed to
  that entry and with no user relation (an address written twice is two entries), and
  then one mail for each user of the final set, with that user as its only \<open>to_users\<close>
  relation. The final set has no repetition and holds the users found by the criteria
  together with the users the entries match, so a user reached in several ways gets
  one mail; an entry that matches a user gets no standalone mail.
\<close>

theorem compose_one_mail_per_recipient:
  "queued_mails (out_store (ComposeMail_form_valid r form s)) =
     queued_mails s @ created s (out_store (ComposeMail_form_valid r form s))
   \<and> distinct (final_user_set r form s)
   \<and> set (final_user_set r form s) =
       set (recipients_loop s (req_event r) (cd_recipients form) (users_by_criteria s (req_event r) form))
       \<union> {user_pk u |u e. e \<in> set (additional_mails form) \<and> user_by_email s e = Some u}
   \<and> map mail_to (filter (\<lambda>m. mail_to m \<noteq> None) (created s (out_store (ComposeMail_form_valid r form s)))) =
       map Some (filter (\<lambda>e. user_by_email s e = None) (additional_mails form))
   \<and> (\<forall>m \<in> set (created s (out_store (ComposeMail_form_valid r form s))).
         mail_to m \<noteq> None \<longrightarrow> mail_to_users m = [])
   \<and> map mail_to_users (filter (\<lambda>m. mail_to m = None) (created s (out_store (ComposeMail_form_valid r form s)))) =
       map (\<lambda>u. [u]) (final_user_set r form s)
   \<and> (\<forall>e \<in> set (additional_mails form). user_by_email s e \<noteq> None \<longrightarrow>
         (\<forall>m \<in> set (created s (out_store (ComposeMail_form_valid r form s))). mail_to m \<noteq> Some e))"
proof -
  let ?new = "created s (out_store (ComposeMail_form_valid r form s))"
  let ?sa = "standalone_mails (req_event r) form s (additional_mails form)"
  let ?um = "user_mails (req_event r) form (final_user_set r form s)"
  have new: "?new = with_pks (next_pk s) (?sa @ ?um)"
    by (rule ComposeMail_new)
  have c1: "queued_mails (out_store (ComposeMail_form_valid r form s)) = queued_mails s @ ?new"
    by (simp add: new ComposeMail_created)
  have fin: "final_user_set r form s =
      fold List.insert (map user_pk (List.map_filter (user_by_email s) (additional_mails form)))
        (recipients_loop s (req_event r) (cd_recipients form) (users_by_criteria s (req_event r) form))"
    by (simp add: final_user_set_def additional_loop_set)
  have c2: "distinct (final_user_set r form s)"
    by (simp add: fin fold_insert_distinct recipients_loop_distinct users_by_criteria_distinct)
  have c3: "set (final_user_set r form s) =
       set (recipients_loop s (req_event r) (cd_recipients form) (users_by_criteria s (req_event r) form))
       \<union> {user_pk u |u e. e \<in> set (additional_mails form) \<and> user_by_email s e = Some u}"
    unfolding fin fold_insert_set by (auto simp: map_filter_set)
  have sa_to: "filter (\<lambda>m. mail_to m \<noteq> None) ?sa = ?sa" "filter (\<lambda>m. mail_to m = None) ?sa = []"
    by (auto simp: standalone_mails_def)
  have um_to: "filter (\<lambda>m. mail_to m \<noteq> None) ?um = []" "filter (\<lambda>m. mail_to m = None) ?um = ?um"
    by (auto simp: user_mails_def compose_mail_def)
  have c4: "map mail_to (filter (\<lambda>m. mail_to m \<noteq> None) ?new) =
       map Some (filter (\<lambda>e. user_by_email s e = None) (additional_mails form))"
  proof -
    have "map mail_to (filter (\<lambda>m. mail_to m \<noteq> None) ?new) =
            map mail_to (filter (\<lambda>m. mail_to m \<noteq> None) (?sa @ ?um))"
      unfolding new by (rule with_pks_filter_map) simp_all
    also have "\<dots> = map mail_to ?sa"
      by (simp only: filter_append sa_to um_to append_Nil2)
    also have "\<dots> = map Some (filter (\<lambda>e. user_by_email s e = None) (additional_mails form))"
      by (simp add: standalone_mails_def comp_def)
    finally show ?thesis .
  qed
  have c5: "\<forall>m \<in> set ?new. mail_to m \<noteq> None \<longrightarrow> mail_to_users m = []"
    unfolding new
    by (subst with_pks_ball) (auto simp: standalone_mails_def user_mails_def compose_mail_def)
  have c6: "map mail_to_users (filter (\<lambda>m. mail_to m = None) ?new) = map (\<lambda>u. [u]) (final_user_set r form s)"
  proof -
    have "map mail_to_users (filter (\<lambda>m. mail_to m = None) ?new) =
            map mail_to_users (filter (\<lambda>m. mail_to m = None) (?sa @ ?um))"
      unfolding new by (rule with_pks_filter_map) simp_all
    also have "\<dots> = map mail_to_users ?um"
      by (simp only: filter_append sa_to um_to append_Nil)
    also have "\<dots> = map (\<lambda>u. [u]) (final_user_set r form s)"
      by (simp add: user_mails_def comp_def)
    finally show ?thesis .
  qed
  have c7: "\<forall>e \<in> set (additional_mails form). user_by_email s e \<noteq> None \<longrightarrow> (\<forall>m \<in> set ?new. mail_to m \<noteq> Some e)"
  proof (intro ballI impI)
    fix e m
    assume e: "e \<in> set (additional_mails form)" "user_by_email s e \<noteq> None" and m: "m \<in> set ?new"
    have "\<forall>m \<in> set (with_pks (next_pk s) (?sa @ ?um)). mail_to m \<noteq> Some e"
      using e by (subst with_pks_ball) (auto simp: standalone_mails_def user_mails_def compose_mail_def)
    then show "mail_to m \<noteq> Some e" using m new by simp
  qed
  show ?thesis
    using c1 c2 c3 c4 c5 c6 c7 by blast
qed

text \<open>
  The example of the specification: \<open>a@x.com\<close> (written twice, once in capitals) is
  user 7 and gets one mail, \<open>b@y.com\<close> gets the only standalone mail.
\<close>

theorem compose_one_mail_per_recipient_witness:
  "''a@x.com'' \<in> set (additional_mails ex_form)
   \<and> user_by_email ex_store ''a@x.com'' \<noteq> None
   \<and> distinct (final_user_set (ex_request POST None no_query) ex_form ex_store)
   \<and> map mail_to (filter (\<lambda>m. mail_to m \<noteq> None)
        (created ex_store (out_store (ComposeMail_form_valid (ex_request POST None no_query) ex_form ex_store))))
       = [Some ''b@y.com'']
   \<and> map mail_to_users (filter (\<lambda>m. mail_to m = None)
        (created ex_store (out_store (ComposeMail_form_valid (ex_request POST None no_query) ex_form ex_store))))
       = [[7]]
   \<and> Some ''a@x.com'' \<notin> mail_to ` set (created ex_store
         (out_store (ComposeMail_form_valid (ex_request POST None no_query) ex_form ex_store)))"
proof -
  have am: "additional_mails ex_form = [''a@x.com'', ''a@x.com'', ''b@y.com'']"
    by code_simp
  have fu: "final_user_set (ex_request POST None no_query) ex_form ex_store = [7]"
    by code_simp
  have ua: "user_by_email ex_store ''a@x.com'' = Some \<lparr>user_pk = 7, user_email = ''a@x.com''\<rparr>"
    by code_simp
  have ub: "user_by_email ex_store ''b@y.com'' = None"
    by code_simp
  note t = compose_one_mail_per_recipient [of "ex_request POST None no_query" ex_form ex_store]
  have c2: "distinct (final_user_set (ex_request POST None no_query) ex_form ex_store)"
    using t by blast
  have c4: "map mail_to (filter (\<lambda>m. mail_to m \<noteq> None)
        (created ex_store (out_store (ComposeMail_form_valid (ex_request POST None no_query) ex_form ex_store))))
       = [Some ''b@y.com'']"
    using t [THEN conjunct2, THEN conjunct2, THEN conjunct2, THEN conjunct1] by (simp add: am ua ub)
  have c6: "map mail_to_users (filter (\<lambda>m. mail_to m = None)
        (created ex_store (out_store (ComposeMail_form_valid (ex_request POST None no_query) ex_form ex_store))))
       = [[7]]"
    using t [THEN conjunct2, THEN conjunct2, THEN conjunct2, THEN conjunct2, THEN conjunct2, THEN conjunct1]
    by (simp add: fu)
  have a: "''a@x.com'' \<in> set (additional_mails ex_form)"
    by (simp add: am)
  have u: "user_by_email ex_store ''a@x.com'' \<noteq> None"
    by (simp add: ua)
  note t7 = t [THEN conjunct2, THEN conjunct2, THEN conjunct2, THEN conjunct2, THEN conjunct2,
      THEN conjunct2, rule_format, OF a u]
  have c7: "Some ''a@x.com'' \<notin> mail_to ` set (created ex_store
         (out_store (ComposeMail_form_valid (ex_request POST None no_query) ex_form ex_store)))"
  proof
    assume "Some ''a@x.com'' \<in> mail_to ` set (created ex_store
         (out_store (ComposeMail_form_valid (ex_request POST None no_query) ex_form ex_store)))"
    then obtain x where x: "x \<in> set (created ex_store
         (out_store (ComposeMail_form_valid (ex_request POST None no_query) ex_form ex_store)))"
      and eq: "Some ''a@x.com'' = mail_to x"
      by (rule imageE)
    from t7 [OF x] eq show False by simp
  qed
  show ?thesis
    using a u c2 c4 c6 c7 by simp
qed

text \<open>
  C1. The count in the success message is \<open>len(user_set) + len(additional_mails)\<close>:
  every normalized address is counted, also those that were merged into the user set.
  On the example of the specification (\<open>a@x.com, A@X.com, b@y.com\<close>, with \<open>a@x.com\<close>
  the address of user 7) the view creates two mails, one for user 7 and one for
  \<open>b@y.com\<close>, and reports 4.
\<close>

theorem compose_count_example:
  "out_messages (ComposeMail_form_valid (ex_request POST None no_query) ex_form ex_store) =
     [success_count msg_saved_to_outbox 4]
   \<and> final_user_set (ex_request POST None no_query) ex_form ex_store = [7]
   \<and> map mail_to (created ex_store (out_store (ComposeMail_form_valid (ex_request POST None no_query) ex_form ex_store)))
       = [Some ''b@y.com'', None]
   \<and> map mail_to_users (created ex_store (out_store (ComposeMail_form_valid (ex_request POST None no_query) ex_form ex_store)))
       = [[], [7]]"
  by code_simp

subsection \<open>Sent mails under every handler\<close>

lemma send_keeps:
  "mail_pk t \<noteq> mail_pk m \<Longrightarrow> m \<in> set (queued_mails s) \<Longrightarrow> m \<in> set (queued_mails (send now rq t s))"
  by (force simp: send_def image_iff)

lemma fold_send_keeps:
  "(\<forall>t \<in> set qs. mail_pk t \<noteq> mail_pk m) \<Longrightarrow> m \<in> set (queued_mails s) \<Longrightarrow>
     m \<in> set (queued_mails (fold (send now rq) qs s))"
  by (induction qs arbitrary: s) (auto simp: send_keeps)

lemma sent_unsent_pk:
  assumes "distinct (map mail_pk (queued_mails s))" "m \<in> set (queued_mails s)" "mail_sent m \<noteq> None"
    "t \<in> set (queued_mails s)" "mail_sent t = None"
  shows "mail_pk t \<noteq> mail_pk m"
  using assms distinct_key_eq [of mail_pk "queued_mails s" t m] by auto

lemma find_SomeD: "find P xs = Some x \<Longrightarrow> x \<in> set xs \<and> P x"
  by (induction xs) (auto split: if_splits)

lemma OutboxSend_keeps:
  assumes "wf_store s" "m \<in> set (queued_mails s)" "mail_sent m \<noteq> None"
  shows "m \<in> set (queued_mails (out_store (OutboxSend_dispatch r s)))"
proof (cases "req_pk r")
  case (Some k)
  show ?thesis
  proof (cases "find (\<lambda>m. mail_pk m = k) (event_queued_mails (req_event r) s)")
    case None
    then show ?thesis using Some assms by (simp add: OutboxSend_dispatch_def)
  next
    case (Some mail)
    then have "mail \<in> set (queued_mails s)"
      by (auto dest!: find_SomeD simp: event_queued_mails_def)
    then have "mail_sent mail = None \<Longrightarrow> mail_pk mail \<noteq> mail_pk m"
      using assms sent_unsent_pk [of s m mail] by (simp add: wf_store_def)
    then show ?thesis using Some \<open>req_pk r = Some k\<close> assms
      by (auto simp add: OutboxSend_dispatch_def send_keeps)
  qed
next
  case None
  have "\<forall>t \<in> set (OutboxSend_queryset r s). mail_pk t \<noteq> mail_pk m"
    using None assms sent_unsent_pk [of s m]
    by (auto simp: OutboxSend_queryset_def event_queued_mails_def wf_store_def)
  then show ?thesis using None assms
    by (cases "req_method r") (simp_all add: OutboxSend_dispatch_def OutboxSend_post_def Let_def fold_send_keeps)
qed

lemma OutboxPurge_keeps:
  assumes "wf_store s" "m \<in> set (queued_mails s)" "mail_sent m \<noteq> None"
  shows "m \<in> set (queued_mails (out_store (OutboxPurge_dispatch r s)))"
proof (cases "req_pk r")
  case (Some k)
  show ?thesis
  proof (cases "find (\<lambda>m. mail_sent m = None \<and> mail_pk m = k) (event_queued_mails (req_event r) s)")
    case None
    then show ?thesis using Some assms by (simp add: OutboxPurge_dispatch_def)
  next
    case (Some mail)
    then have "mail \<in> set (queued_mails s) \<and> mail_sent mail = None"
      by (auto dest!: find_SomeD simp: event_queued_mails_def)
    then have "mail_pk mail \<noteq> mail_pk m"
      using assms sent_unsent_pk [of s m mail] by (simp add: wf_store_def)
    then show ?thesis using Some \<open>req_pk r = Some k\<close> assms
      by (auto simp add: OutboxPurge_dispatch_def delete_mail_def log_action_def)
  qed
next
  case None
  then show ?thesis using assms
    by (cases "req_method r")
       (auto simp add: OutboxPurge_dispatch_def OutboxPurge_post_def Let_def qs_delete_def
          OutboxPurge_queryset_def event_queued_mails_def)
qed

lemma MailDetail_keeps:
  assumes "wf_store s" "m \<in> set (queued_mails s)" "mail_sent m \<noteq> None"
  shows "m \<in> set (queued_mails (out_store (MailDetail_form_valid r form s)))"
proof (cases "MailDetail_get_object r s")
  case None
  have pk: "next_pk s \<noteq> mail_pk m"
    using assms by (auto simp: wf_store_def)
  have inst: "mail_pk (MailDetail_instance r form None s) = next_pk s"
    by (simp add: MailDetail_instance_def)
  show ?thesis using None assms pk inst
    by (auto simp add: MailDetail_form_valid_def Let_def save_mail_def log_action_def
        intro!: send_keeps)
next
  case (Some obj)
  then have obj: "obj \<in> set (queued_mails s)"
    by (auto dest!: find_SomeD simp: MailDetail_get_object_def event_queued_mails_def)
  have inst: "mail_pk (MailDetail_instance r form (Some obj) s) = mail_pk obj"
      "mail_sent (MailDetail_instance r form (Some obj) s) = mail_sent obj"
    by (simp_all add: MailDetail_instance_def)
  show ?thesis
  proof (cases "mail_sent obj")
    case None
    then have pk: "mail_pk obj \<noteq> mail_pk m"
      using assms obj sent_unsent_pk [of s m obj] by (simp add: wf_store_def)
    have saved: "m \<in> set (queued_mails (save_mail (Some obj) (MailDetail_instance r form (Some obj) s) s))"
      using pk assms(2) by (force simp: save_mail_def image_iff)
    show ?thesis using Some None pk inst saved
      by (auto simp add: MailDetail_form_valid_def Let_def log_action_def intro!: send_keeps)
  next
    case (Some t)
    then show ?thesis using \<open>MailDetail_get_object r s = Some obj\<close> assms inst
      by (simp add: MailDetail_form_valid_def Let_def)
  qed
qed

lemma handle_keeps:
  assumes "wf_store s" "m \<in> set (queued_mails s)" "mail_sent m \<noteq> None"
  shows "m \<in> set (queued_mails (out_store (handle i s)))"
proof (cases i)
  case (OutboxList r)
  then show ?thesis using assms by (cases "req_method r") (simp_all add: OutboxList_dispatch_def)
next
  case (SentMail r)
  then show ?thesis using assms by (cases "req_method r") (simp_all add: SentMail_dispatch_def)
next
  case (OutboxSend r)
  then show ?thesis using assms by (simp add: OutboxSend_keeps)
next
  case (OutboxPurge r)
  then show ?thesis using assms by (simp add: OutboxPurge_keeps)
next
  case (MailDetail r form)
  then show ?thesis using assms
    by (cases "req_method r") (simp_all add: MailDetail_dispatch_def MailDetail_keeps)
next
  case (MailCopy r)
  then show ?thesis using assms
    by (simp add: MailCopy_dispatch_def copy_to_draft_def Let_def split: option.splits)
next
  case (ComposeMail r form)
  then show ?thesis using assms
    by (cases "req_method r") (simp_all add: ComposeMail_dispatch_def ComposeMail_created)
next
  case (TemplateList r)
  then show ?thesis using assms by (cases "req_method r") (simp_all add: TemplateList_dispatch_def)
next
  case (TemplateDetail r form)
  then show ?thesis using assms
    by (cases "req_method r")
       (simp_all add: TemplateDetail_dispatch_def TemplateDetail_form_valid_def Let_def
          save_template_def log_action_def split: option.splits)
next
  case (TemplateDelete r)
  then show ?thesis using assms
    by (simp add: TemplateDelete_dispatch_def delete_template_def log_action_def split: option.splits)
qed

lemma wf_map:
  assumes "wf_store s" and "queued_mails s' = map f (queued_mails s)"
    and "\<And>x. x \<in> set (queued_mails s) \<Longrightarrow> mail_pk (f x) = mail_pk x"
    and "next_pk s \<le> next_pk s'"
  shows "wf_store s'"
proof -
  have pks: "map mail_pk (queued_mails s') = map mail_pk (queued_mails s)"
    using assms(2,3) by (simp add: comp_def)
  have "\<And>y. y \<in> set (queued_mails s') \<Longrightarrow> mail_pk y < next_pk s'"
  proof -
    fix y assume "y \<in> set (queued_mails s')"
    then obtain x where x: "x \<in> set (queued_mails s)" "y = f x"
      using assms(2) by auto
    then have "mail_pk y = mail_pk x" using assms(3) by simp
    moreover have "mail_pk x < next_pk s" using x(1) assms(1) by (simp add: wf_store_def)
    ultimately show "mail_pk y < next_pk s'" using assms(4) by simp
  qed
  then show ?thesis using assms(1) pks by (simp add: wf_store_def)
qed

lemma send_wf:
  assumes "wf_store s"
  shows "wf_store (send now rq t s)"
proof (rule wf_map [OF assms])
  show "queued_mails (send now rq t s) =
          map (\<lambda>x. if mail_pk x = mail_pk t then x\<lparr>mail_sent := Some now\<rparr> else x) (queued_mails s)"
    by (simp add: send_def)
  show "\<And>x. mail_pk (if mail_pk x = mail_pk t then x\<lparr>mail_sent := Some now\<rparr> else x) = mail_pk x"
    by simp
  show "next_pk s \<le> next_pk (send now rq t s)"
    by (simp add: send_def)
qed

lemma fold_send_wf: "wf_store s \<Longrightarrow> wf_store (fold (send now rq) qs s)"
  by (induction qs arbitrary: s) (simp_all add: send_wf)

lemma wf_filter:
  assumes "wf_store s" and "queued_mails s' = filter P (queued_mails s)" and "next_pk s \<le> next_pk s'"
  shows "wf_store s'"
proof -
  have "distinct (map mail_pk (queued_mails s'))"
    using assms(1,2) by (simp add: wf_store_def distinct_map_filter)
  moreover have "\<forall>x \<in> set (queued_mails s'). mail_pk x < next_pk s'"
    using assms by (fastforce simp: wf_store_def)
  ultimately show ?thesis by (simp add: wf_store_def)
qed

lemma wf_append:
  assumes "wf_store s" and "queued_mails s' = queued_mails s @ [x]" and "mail_pk x = next_pk s"
    and "next_pk s' = Suc (next_pk s)"
  shows "wf_store s'"
proof -
  have "mail_pk x \<notin> mail_pk ` set (queued_mails s)"
    using assms(1,3) by (fastforce simp: wf_store_def)
  then have "distinct (map mail_pk (queued_mails s'))"
    using assms(1,2) by (simp add: wf_store_def)
  moreover have "\<forall>y \<in> set (queued_mails s'). mail_pk y < next_pk s'"
    using assms by (fastforce simp: wf_store_def)
  ultimately show ?thesis by (simp add: wf_store_def)
qed

lemma wf_same:
  assumes "wf_store s" and "queued_mails s' = queued_mails s" and "next_pk s \<le> next_pk s'"
  shows "wf_store s'"
  using assms by (fastforce simp: wf_store_def)


lemma create_mail_wf:
  assumes "wf_store s"
  shows "wf_store (snd (create_mail x s))"
  by (rule wf_append [OF assms, where x = "x\<lparr>mail_pk := next_pk s\<rparr>"])
     (simp_all add: create_mail_fields)

lemma additional_loop_wf: "wf_store s \<Longrightarrow> wf_store (snd (additional_loop ev form es U s))"
proof (induction es arbitrary: U s)
  case Nil
  then show ?case by simp
next
  case (Cons e es)
  show ?case
  proof (cases "user_by_email s e")
    case None
    then show ?thesis
      using Cons.IH [OF create_mail_wf [OF Cons.prems]] by simp
  next
    case (Some u)
    then show ?thesis using Cons.IH [OF Cons.prems] by simp
  qed
qed

lemma user_loop_wf: "wf_store s \<Longrightarrow> wf_store (user_loop ev form us s)"
proof (induction us arbitrary: s)
  case Nil
  then show ?case by simp
next
  case (Cons u us)
  show ?case using Cons.IH [OF create_mail_wf [OF Cons.prems]] by simp
qed

lemma ComposeMail_wf: "wf_store s \<Longrightarrow> wf_store (out_store (ComposeMail_form_valid r form s))"
  by (simp add: ComposeMail_form_valid_def Let_def split_beta user_loop_wf additional_loop_wf)

lemma log_action_wf: "wf_store s \<Longrightarrow> wf_store (log_action a ob p b s)"
  by (simp add: wf_store_def log_action_def)

lemma save_mail_wf:
  assumes "wf_store s"
    and "obj = None \<Longrightarrow> mail_pk x = next_pk s"
    and "\<And>old. obj = Some old \<Longrightarrow> mail_pk x = mail_pk old"
  shows "wf_store (save_mail obj x s)"
proof (cases obj)
  case None
  show ?thesis
    by (rule wf_append [OF assms(1), where x = x]) (simp_all add: None save_mail_def assms(2))
next
  case (Some old)
  show ?thesis
  proof (rule wf_map [OF assms(1)])
    show "queued_mails (save_mail obj x s) =
            map (\<lambda>y. if mail_pk y = mail_pk old then x else y) (queued_mails s)"
      by (simp add: Some save_mail_def)
    show "\<And>y. mail_pk (if mail_pk y = mail_pk old then x else y) = mail_pk y"
      using assms(3) [OF Some] by simp
    show "next_pk s \<le> next_pk (save_mail obj x s)"
      by (simp add: Some save_mail_def)
  qed
qed

lemma MailDetail_wf:
  assumes "wf_store s"
  shows "wf_store (out_store (MailDetail_form_valid r form s))"
proof -
  let ?obj = "MailDetail_get_object r s"
  let ?inst = "MailDetail_instance r form ?obj s"
  have s1: "wf_store (save_mail ?obj ?inst s)"
    by (rule save_mail_wf [OF assms]) (simp_all add: MailDetail_instance_def)
  show ?thesis
    using assms s1 by (simp add: MailDetail_form_valid_def Let_def send_wf log_action_wf)
qed

lemma OutboxSend_wf:
  assumes "wf_store s"
  shows "wf_store (out_store (OutboxSend_dispatch r s))"
  using assms
  by (simp add: OutboxSend_dispatch_def OutboxSend_post_def Let_def send_wf fold_send_wf
      split: option.split http_method.split)

lemma delete_mail_wf:
  assumes "wf_store s"
  shows "wf_store (delete_mail m s)"
  by (rule wf_filter [OF assms, where P = "\<lambda>x. mail_pk x \<noteq> mail_pk m"])
     (simp_all add: delete_mail_def)

lemma qs_delete_wf:
  assumes "wf_store s"
  shows "wf_store (qs_delete qs s)"
  by (rule wf_filter [OF assms, where P = "\<lambda>x. x \<notin> set qs"]) (simp_all add: qs_delete_def)

lemma OutboxPurge_wf:
  assumes "wf_store s"
  shows "wf_store (out_store (OutboxPurge_dispatch r s))"
  using assms
  by (simp add: OutboxPurge_dispatch_def OutboxPurge_post_def Let_def delete_mail_wf
      log_action_wf qs_delete_wf split: option.split http_method.split)

lemma MailCopy_wf:
  assumes "wf_store s"
  shows "wf_store (out_store (MailCopy_dispatch r s))"
proof (cases "find (\<lambda>m. Some (mail_pk m) = req_pk r) (event_queued_mails (req_event r) s)")
  case None
  then show ?thesis using assms by (simp add: MailCopy_dispatch_def)
next
  case (Some mail)
  have "wf_store (snd (copy_to_draft mail s))"
    by (rule wf_append [OF assms, where x = "mail\<lparr>mail_pk := next_pk s, mail_sent := None\<rparr>"])
       (simp_all add: copy_to_draft_def Let_def)
  then show ?thesis using Some by (simp add: MailCopy_dispatch_def split_beta)
qed

lemma TemplateDetail_wf:
  assumes "wf_store s"
  shows "wf_store (out_store (TemplateDetail_form_valid r form s))"
  by (rule wf_same [OF assms])
     (simp_all add: TemplateDetail_form_valid_def Let_def save_template_def log_action_def
        split: option.split)

lemma TemplateDelete_wf:
  assumes "wf_store s"
  shows "wf_store (out_store (TemplateDelete_dispatch r s))"
  by (rule wf_same [OF assms])
     (simp_all add: TemplateDelete_dispatch_def delete_template_def log_action_def
        split: option.split)

lemma handle_wf:
  assumes "wf_store s"
  shows "wf_store (out_store (handle i s))"
proof (cases i)
  case (OutboxList r)
  then show ?thesis using assms by (cases "req_method r") (simp_all add: OutboxList_dispatch_def)
next
  case (SentMail r)
  then show ?thesis using assms by (cases "req_method r") (simp_all add: SentMail_dispatch_def)
next
  case (OutboxSend r)
  then show ?thesis using assms by (simp add: OutboxSend_wf)
next
  case (OutboxPurge r)
  then show ?thesis using assms by (simp add: OutboxPurge_wf)
next
  case (MailDetail r form)
  then show ?thesis using assms
    by (cases "req_method r") (simp_all add: MailDetail_dispatch_def MailDetail_wf)
next
  case (MailCopy r)
  then show ?thesis using assms by (simp add: MailCopy_wf)
next
  case (ComposeMail r form)
  then show ?thesis using assms
    by (cases "req_method r") (simp_all add: ComposeMail_dispatch_def ComposeMail_wf)
next
  case (TemplateList r)
  then show ?thesis using assms by (cases "req_method r") (simp_all add: TemplateList_dispatch_def)
next
  case (TemplateDetail r form)
  then show ?thesis using assms
    by (cases "req_method r") (simp_all add: TemplateDetail_dispatch_def TemplateDetail_wf)
next
  case (TemplateDelete r)
  then show ?thesis using assms by (simp add: TemplateDelete_wf)
qed

lemma run_keeps:
  "wf_store s \<Longrightarrow> m \<in> set (queued_mails s) \<Longrightarrow> mail_sent m \<noteq> None \<Longrightarrow>
     m \<in> set (queued_mails (run invs s))"
  by (induction invs arbitrary: s) (simp_all add: handle_keeps handle_wf)

text \<open>
  C3. Let a mail with \<open>sent\<close> set be in a well-formed store. A mail-detail save, a
  single-record send and a single-record purge aimed at this mail each return the
  store exactly as it was, with an error message and a redirect to the outbox. More
  generally no handler of the module, and no sequence of requests, removes or changes
  the row: after any of them the mail is in the table with all its fields as before.
\<close>

theorem sent_mail_is_immutable:
  assumes "wf_store s" and "m \<in> set (queued_mails s)" and "mail_sent m \<noteq> None"
  shows "(mail_event m = event_pk (req_event r) \<and> req_pk r = Some (mail_pk m) \<longrightarrow>
            MailDetail_form_valid r form s =
              \<lparr>out_response = Redirect (Outbox (event_pk (req_event r))),
               out_messages = [error msg_cannot_edit], out_store = s\<rparr>
          \<and> OutboxSend_dispatch r s =
              \<lparr>out_response = Redirect (Outbox (event_pk (req_event r))),
               out_messages = [error msg_had_been_sent], out_store = s\<rparr>
          \<and> OutboxPurge_dispatch r s =
              \<lparr>out_response = Redirect (Outbox (event_pk (req_event r))),
               out_messages = [error msg_not_exist_or_sent], out_store = s\<rparr>)
       \<and> m \<in> set (queued_mails (out_store (handle i s)))
       \<and> m \<in> set (queued_mails (run invs s))"
proof (intro conjI impI)
  assume tgt: "mail_event m = event_pk (req_event r) \<and> req_pk r = Some (mail_pk m)"
  have d: "distinct (map mail_pk (queued_mails s))"
    using assms(1) by (simp add: wf_store_def)
  have f: "find (\<lambda>y. mail_pk y = mail_pk m) (event_queued_mails (req_event r) s) = Some m"
    unfolding event_queued_mails_def using d assms(2) tgt by (intro find_filter_distinct_key) auto
  have obj: "MailDetail_get_object r s = Some m"
    using f tgt by (simp add: MailDetail_get_object_def)
  have "mail_sent (MailDetail_instance r form (Some m) s) = mail_sent m"
    by (simp add: MailDetail_instance_def)
  then show "MailDetail_form_valid r form s =
              \<lparr>out_response = Redirect (Outbox (event_pk (req_event r))),
               out_messages = [error msg_cannot_edit], out_store = s\<rparr>"
    using obj assms(3) by (simp add: MailDetail_form_valid_def Let_def)
  show "OutboxSend_dispatch r s =
              \<lparr>out_response = Redirect (Outbox (event_pk (req_event r))),
               out_messages = [error msg_had_been_sent], out_store = s\<rparr>"
    using f tgt assms(3) by (auto simp add: OutboxSend_dispatch_def)
  have "\<And>x. x \<in> set (queued_mails s) \<Longrightarrow> mail_pk x = mail_pk m \<Longrightarrow> x = m"
    using d assms(2) distinct_key_eq [of mail_pk "queued_mails s"] by blast
  then have "find (\<lambda>y. mail_sent y = None \<and> mail_pk y = mail_pk m) (event_queued_mails (req_event r) s) = None"
    using assms(3) by (auto simp: find_None_iff event_queued_mails_def)
  then show "OutboxPurge_dispatch r s =
              \<lparr>out_response = Redirect (Outbox (event_pk (req_event r))),
               out_messages = [error msg_not_exist_or_sent], out_store = s\<rparr>"
    using tgt by (simp add: OutboxPurge_dispatch_def)
next
  show "m \<in> set (queued_mails (out_store (handle i s)))"
    using assms by (rule handle_keeps)
  show "m \<in> set (queued_mails (run invs s))"
    using assms by (rule run_keeps)
qed


text \<open>
  On the example store for the sent mail 1: the three targeted requests are refused,
  and the mail survives a bulk send, an edit of mail 2, a bulk purge and a compose.
\<close>

theorem sent_mail_is_immutable_witness:
  "wf_store ex_store
   \<and> ex_mail 1 1 (Some 50) \<in> set (queued_mails ex_store)
   \<and> MailDetail_form_valid (ex_request POST (Some 1) no_query) ex_mdf ex_store =
       \<lparr>out_response = Redirect (Outbox 1), out_messages = [error msg_cannot_edit], out_store = ex_store\<rparr>
   \<and> OutboxSend_dispatch (ex_request POST (Some 1) no_query) ex_store =
       \<lparr>out_response = Redirect (Outbox 1), out_messages = [error msg_had_been_sent], out_store = ex_store\<rparr>
   \<and> OutboxPurge_dispatch (ex_request POST (Some 1) no_query) ex_store =
       \<lparr>out_response = Redirect (Outbox 1), out_messages = [error msg_not_exist_or_sent], out_store = ex_store\<rparr>
   \<and> ex_mail 1 1 (Some 50) \<in> set (queued_mails (run
         [OutboxSend (ex_request POST None no_query), MailDetail (ex_request POST (Some 2) no_query) ex_mdf,
          OutboxPurge (ex_request POST None no_query), ComposeMail (ex_request POST None no_query) ex_form]
         ex_store))"
proof -
  have mails: "queued_mails ex_store =
                 [ex_mail 1 1 (Some 50), ex_mail 2 1 None, ex_mail 3 2 None, ex_mail 4 1 None]"
    by (simp add: ex_store_def)
  have wf: "wf_store ex_store"
    by (simp add: wf_store_def mails ex_mail_def) (simp add: ex_store_def)
  have m: "ex_mail 1 1 (Some 50) \<in> set (queued_mails ex_store)"
    by (simp add: mails)
  have s: "mail_sent (ex_mail 1 1 (Some 50)) \<noteq> None"
    by (simp add: ex_mail_def)
  have t: "mail_event (ex_mail 1 1 (Some 50)) = event_pk (req_event (ex_request POST (Some 1) no_query))
           \<and> req_pk (ex_request POST (Some 1) no_query) = Some (mail_pk (ex_mail 1 1 (Some 50)))"
    by (simp add: ex_mail_def ex_request_def ex_event_def)
  have ev: "\<And>k. event_pk (req_event (ex_request POST k no_query)) = 1"
    by (simp add: ex_request_def ex_event_def)
  from sent_mail_is_immutable [OF wf m s, where r = "ex_request POST (Some 1) no_query"
      and form = ex_mdf and i = "OutboxList (ex_request GET None no_query)"
      and invs = "[OutboxSend (ex_request POST None no_query),
                   MailDetail (ex_request POST (Some 2) no_query) ex_mdf,
                   OutboxPurge (ex_request POST None no_query),
                   ComposeMail (ex_request POST None no_query) ex_form]"] t wf m
  show ?thesis
    by (simp add: ev)
qed


subsection \<open>Audit entry of the mail detail view\<close>

text \<open>
  C6. A valid, changed mail-detail POST for a key under which the event has no mail:
  \<open>get_object\<close> finds nothing, the save creates the row, and the audit entry is tagged
  \<open>pretalx.mail.update\<close>, because the view reads \<open>self.object\<close> after
  \<open>super().form_valid\<close> has stored the saved instance there. The template detail view,
  which writes its entry before saving, tags the same situation
  \<open>pretalx.mail_template.create\<close>.
\<close>

theorem mail_detail_create_logged_as_update:
  "MailDetail_get_object (ex_request POST (Some 99) no_query) ex_store = None
   \<and> trace (out_store (MailDetail_dispatch (ex_request POST (Some 99) no_query) ex_mdf ex_store)) =
       [LogAction ''pretalx.mail.update'' (MailRef (Some 6)) 3 True]
   \<and> TemplateDetail_get_object (ex_request POST (Some 99) no_query) ex_store = None
   \<and> trace (out_store (TemplateDetail_dispatch (ex_request POST (Some 99) no_query) ex_mtf ex_store)) =
       [LogAction ''pretalx.mail_template.create'' (TemplateRef None) 3 True]"
  by code_simp

subsection \<open>Request methods, redirects and messages\<close>

lemma get_renders:
  "req_method (inv_request i) = GET \<Longrightarrow> \<not> acts_in_dispatch i \<Longrightarrow>
     out_store (handle i s) = s \<and> out_messages (handle i s) = [] \<and> (\<exists>t. out_response (handle i s) = Render t)"
  by (cases i)
     (simp_all add: OutboxList_dispatch_def SentMail_dispatch_def TemplateList_dispatch_def
        OutboxSend_dispatch_def OutboxPurge_dispatch_def MailDetail_dispatch_def
        ComposeMail_dispatch_def TemplateDetail_dispatch_def)

lemma dispatch_ignores_method:
  "acts_in_dispatch i \<Longrightarrow> handle (set_method mth i) s = handle i s"
  by (cases i)
     (auto simp add: OutboxSend_dispatch_def OutboxPurge_dispatch_def MailCopy_dispatch_def
        TemplateDelete_dispatch_def event_queued_mails_def split: option.split)

lemma MailDetail_form_valid_response:
  "out_response (MailDetail_form_valid r form s) = Redirect (Outbox (event_pk (req_event r)))"
  by (simp add: MailDetail_form_valid_def Let_def)

lemma MailDetail_form_valid_messages:
  "mdf_form form \<in> {None, Some ''save'', Some ''send''} \<Longrightarrow> out_messages (MailDetail_form_valid r form s) \<noteq> []"
  by (auto simp add: MailDetail_form_valid_def Let_def)

lemma change_redirects:
  "out_store (handle i s) = s \<or>
     (redirect_target i s = Some u \<longrightarrow> out_response (handle i s) = Redirect u)
     \<and> redirect_target i s \<noteq> None
     \<and> (known_action i \<longrightarrow> out_messages (handle i s) \<noteq> [])"
proof (cases i)
  case (OutboxList r)
  then show ?thesis by (cases "req_method r") (simp_all add: OutboxList_dispatch_def)
next
  case (SentMail r)
  then show ?thesis by (cases "req_method r") (simp_all add: SentMail_dispatch_def)
next
  case (OutboxSend r)
  then show ?thesis
    by (auto simp add: OutboxSend_dispatch_def OutboxSend_post_def Let_def
        split: option.split http_method.split)
next
  case (OutboxPurge r)
  then show ?thesis
    by (auto simp add: OutboxPurge_dispatch_def OutboxPurge_post_def Let_def
        split: option.split http_method.split)
next
  case (MailDetail r form)
  have msg: "known_action i \<longrightarrow> out_messages (MailDetail_form_valid r form s) \<noteq> []"
    using MailDetail MailDetail_form_valid_messages [of form r s] by simp
  show ?thesis
  proof (cases "req_method r = POST \<and> mdf_is_valid form")
    case True
    then show ?thesis using MailDetail msg
      by (simp add: MailDetail_dispatch_def MailDetail_form_valid_response)
  next
    case False
    then have "out_store (handle i s) = s"
      using MailDetail by (cases "req_method r") (simp_all add: MailDetail_dispatch_def)
    then show ?thesis by simp
  qed
next
  case (MailCopy r)
  then show ?thesis
    by (auto simp add: MailCopy_dispatch_def copy_to_draft_def Let_def split: option.split)
next
  case (ComposeMail r form)
  then show ?thesis
    by (cases "req_method r")
       (auto simp add: ComposeMail_dispatch_def ComposeMail_form_valid_def Let_def split_beta)
next
  case (TemplateList r)
  then show ?thesis by (cases "req_method r") (simp_all add: TemplateList_dispatch_def)
next
  case (TemplateDetail r form)
  then show ?thesis
    by (cases "req_method r")
       (auto simp add: TemplateDetail_dispatch_def TemplateDetail_form_valid_def Let_def)
next
  case (TemplateDelete r)
  then show ?thesis
    by (auto simp add: TemplateDelete_dispatch_def split: option.split)
qed


text \<open>
  C4, as stated, fails: a GET request for a single-record send is handled in
  \<open>dispatch\<close> and sends the mail, and a mail copy redirects to the edit page of the new
  draft, which is not a listing.
\<close>

theorem get_mutates_counterexample:
  "req_method (inv_request (OutboxSend (ex_request GET (Some 2) no_query))) = GET
   \<and> out_store (handle (OutboxSend (ex_request GET (Some 2) no_query)) ex_store) \<noteq> ex_store
   \<and> map mail_sent (queued_mails (out_store (handle (OutboxSend (ex_request GET (Some 2) no_query)) ex_store)))
       = [Some 50, Some 100, None, None]
   \<and> out_response (handle (MailCopy (ex_request POST (Some 2) no_query)) ex_store) = Redirect (MailEdit 6)"
  by code_simp

text \<open>
  C4, amended. The list views, the mail and template forms, the compose form and the
  bulk send and purge (no \<open>pk\<close>) render a template on GET, with the store unchanged and
  no message. Single-record send and purge, mail copy and template delete act in
  \<open>dispatch\<close>, with the same outcome for every request method. A request that changes
  the store is a POST or one of these four, and it ends in a redirect to the target of
  its handler (outbox, template list, compose page, or the edit page of the copied
  draft) with at least one message, where the mail form's action selector is absent,
  \<open>save\<close> or \<open>send\<close>.
\<close>

theorem method_discipline:
  "(req_method (inv_request i) = GET \<and> \<not> acts_in_dispatch i \<longrightarrow>
       out_store (handle i s) = s \<and> out_messages (handle i s) = []
       \<and> (\<exists>t. out_response (handle i s) = Render t))
   \<and> (acts_in_dispatch i \<longrightarrow> handle (set_method mth i) s = handle i s)
   \<and> (out_store (handle i s) \<noteq> s \<longrightarrow>
        (req_method (inv_request i) = POST \<or> acts_in_dispatch i)
        \<and> (\<exists>u. redirect_target i s = Some u \<and> out_response (handle i s) = Redirect u)
        \<and> (known_action i \<longrightarrow> out_messages (handle i s) \<noteq> []))"
proof (intro conjI impI)
  assume "req_method (inv_request i) = GET \<and> \<not> acts_in_dispatch i"
  then have g: "out_store (handle i s) = s \<and> out_messages (handle i s) = []
       \<and> (\<exists>t. out_response (handle i s) = Render t)"
    using get_renders [of i s] by simp
  from g show "out_store (handle i s) = s" by simp
  from g show "out_messages (handle i s) = []" by simp
  from g show "\<exists>t. out_response (handle i s) = Render t" by simp
next
  assume "acts_in_dispatch i"
  then show "handle (set_method mth i) s = handle i s"
    by (rule dispatch_ignores_method)
next
  assume ch: "out_store (handle i s) \<noteq> s"
  show "req_method (inv_request i) = POST \<or> acts_in_dispatch i"
    using ch get_renders [of i s] by (cases "req_method (inv_request i)") auto
  obtain u where u: "redirect_target i s = Some u"
    using ch change_redirects [of i s] by auto
  then have "out_response (handle i s) = Redirect u"
    using ch change_redirects [of i s u] by simp
  then show "\<exists>u. redirect_target i s = Some u \<and> out_response (handle i s) = Redirect u"
    using u by simp
next
  assume ch: "out_store (handle i s) \<noteq> s" and "known_action i"
  then show "out_messages (handle i s) \<noteq> []"
    using change_redirects [of i s] by auto
qed


text \<open>
  On the example store: the bulk purge page on GET, the purge of mail 2 under both
  methods, and the bulk purge on POST.
\<close>

theorem method_discipline_witness:
  "req_method (inv_request (OutboxPurge (ex_request GET None no_query))) = GET
   \<and> \<not> acts_in_dispatch (OutboxPurge (ex_request GET None no_query))
   \<and> out_store (handle (OutboxPurge (ex_request GET None no_query)) ex_store) = ex_store
   \<and> out_response (handle (OutboxPurge (ex_request GET None no_query)) ex_store) = Render ''orga/mails/confirm.html''
   \<and> acts_in_dispatch (OutboxPurge (ex_request GET (Some 2) no_query))
   \<and> handle (OutboxPurge (ex_request POST (Some 2) no_query)) ex_store =
       handle (OutboxPurge (ex_request GET (Some 2) no_query)) ex_store
   \<and> out_store (handle (OutboxPurge (ex_request POST None no_query)) ex_store) \<noteq> ex_store
   \<and> out_response (handle (OutboxPurge (ex_request POST None no_query)) ex_store) = Redirect (Outbox 1)
   \<and> out_messages (handle (OutboxPurge (ex_request POST None no_query)) ex_store) \<noteq> []"
proof -
  have h1: "req_method (inv_request (OutboxPurge (ex_request GET None no_query))) = GET
            \<and> \<not> acts_in_dispatch (OutboxPurge (ex_request GET None no_query))"
    by (simp add: ex_request_def)
  have r1: "out_response (handle (OutboxPurge (ex_request GET None no_query)) ex_store) = Render ''orga/mails/confirm.html''"
    by (simp add: OutboxPurge_dispatch_def ex_request_def)
  have h2: "acts_in_dispatch (OutboxPurge (ex_request GET (Some 2) no_query))"
    by (simp add: ex_request_def)
  have sm: "set_method POST (OutboxPurge (ex_request GET (Some 2) no_query)) =
              OutboxPurge (ex_request POST (Some 2) no_query)"
    by (simp add: ex_request_def)
  have h3: "out_store (handle (OutboxPurge (ex_request POST None no_query)) ex_store) \<noteq> ex_store"
    by code_simp
  have rt: "redirect_target (OutboxPurge (ex_request POST None no_query)) ex_store = Some (Outbox 1)"
    by (simp add: ex_request_def ex_event_def)
  have k: "known_action (OutboxPurge (ex_request POST None no_query))"
    by simp
  from method_discipline [of "OutboxPurge (ex_request GET None no_query)" ex_store POST]
    method_discipline [of "OutboxPurge (ex_request GET (Some 2) no_query)" ex_store POST]
    method_discipline [of "OutboxPurge (ex_request POST None no_query)" ex_store POST]
    h1 r1 h2 sm h3 rt k
  show ?thesis by simp
qed

end
